theory Spec2Isabelle
  imports Main "HOL-Library.Word"
begin

section \<open>Data model of the snapshot subsystem (snapshot.h)\<close>

text \<open>
  Fixed-width integers of the C++ source are machine words. A \<open>uint256\<close> is an opaque
  256-bit blob whose byte \<open>i\<close> (the one at \<open>begin() + i\<close>) holds bits \<open>8 i .. 8 i + 7\<close>;
  its hexadecimal rendering prints the most significant byte first, so the literal
  \<open>uint256S("e3..3c")\<close> is the number \<open>0xe3..3c\<close>. Wall-clock times (\<open>int64_t\<close> seconds
  returned by \<open>GetTime()\<close>) are integers: the source only subtracts two clock readings or
  adds a 32-bit duration to one, which never leaves the 64-bit range for real clock values.
\<close>

type_synonym uint8 = "8 word"
type_synonym uint32 = "32 word"
type_synonym uint64 = "64 word"
type_synonym uint256 = "256 word"

record CSnapshotChunkInfo =
  nChunkNumber :: uint32
  hashChunk :: uint256
  nSize :: uint64

record CSnapshotManifest =
  nBlockHeight :: uint32
  nTimestamp :: uint64
  nTotalSize :: uint64
  vChunks :: "CSnapshotChunkInfo list"

text \<open>\<open>GetChunkCount\<close> returns the size of the chunk vector as a 32-bit number.\<close>

definition GetChunkCount :: "CSnapshotManifest \<Rightarrow> uint32" where
  "GetChunkCount m = of_nat (length (vChunks m))"

subsection \<open>CSnapshotManifest::IsValid\<close>

text \<open>
  The loop \<open>for (size_t i = 0; i < vChunks.size(); i++)\<close> that returns false at the first
  chunk whose number differs from its position. The comparison promotes the 32-bit chunk
  number to \<open>size_t\<close>.
\<close>

function IsValid_loop :: "CSnapshotChunkInfo list \<Rightarrow> nat \<Rightarrow> bool" where
  "IsValid_loop cs i =
     (if i < length cs
      then (if unat (nChunkNumber (cs ! i)) \<noteq> i then False else IsValid_loop cs (Suc i))
      else True)"
  by pat_completeness auto
termination
  by (relation "measure (\<lambda>(cs, i). length cs - i)") auto

declare IsValid_loop.simps [simp del]

definition IsValid :: "CSnapshotManifest \<Rightarrow> bool" where
  "IsValid m =
     (if nBlockHeight m = 0 then False
      else if vChunks m = [] then False
      else if nTotalSize m = 0 then False
      else IsValid_loop (vChunks m) 0)"

text \<open>The data-model invariants of a manifest, as the specification lists them.\<close>

definition spec_manifest_invariants :: "CSnapshotManifest \<Rightarrow> bool" where
  "spec_manifest_invariants m =
     (vChunks m \<noteq> [] \<and> 0 < unat (nBlockHeight m)
      \<and> map (\<lambda>c. unat (nChunkNumber c)) (vChunks m) = [0 ..< length (vChunks m)]
      \<and> sum_list (map (\<lambda>c. unat (nSize c)) (vChunks m)) = unat (nTotalSize m))"

definition unbalanced_manifest :: CSnapshotManifest where
  "unbalanced_manifest =
     \<lparr> nBlockHeight = 1, nTimestamp = 0, nTotalSize = 5,
       vChunks = [\<lparr> nChunkNumber = 0, hashChunk = 0, nSize = 3 \<rparr>] \<rparr>"

subsection \<open>The compile-time manifests\<close>

text \<open>
  \<open>GetHardcodedManifest\<close> and \<open>GetHardcodedParamsManifest\<close> build their chunk vectors by
  successive \<open>push_back\<close>; the lists below are the resulting vectors, in order.
\<close>

definition GetHardcodedManifest_chunks :: "CSnapshotChunkInfo list" where
  "GetHardcodedManifest_chunks = [
    \<lparr> nChunkNumber = 0, hashChunk = 0xe38c36e582ceefdda0a62c0b5d900ae70d656fb08f5f9999ef580dfbd208a23c, nSize = 52428800 \<rparr>,
    \<lparr> nChunkNumber = 1, hashChunk = 0xd5407180ebec16c81a8e4bf74c9cf7fbdca20b72f45c027667b16f0c83432627, nSize = 52428800 \<rparr>,
    \<lparr> nChunkNumber = 2, hashChunk = 0xb2a3cf86143db02d419eeaf77fb71bb3c2eaa93944511768afcb3465e486aca4, nSize = 52428800 \<rparr>,
    \<lparr> nChunkNumber = 3, hashChunk = 0x8e2c6e2fd97573d0954b01ab5824959175b65faa9823cd61af264691aeb5f569, nSize = 52428800 \<rparr>,
    \<lparr> nChunkNumber = 4, hashChunk = 0xbac389ff47bb8085416559a6732b840121622627263b8c4ddc35889c26eeeb99, nSize = 52428800 \<rparr>,
    \<lparr> nChunkNumber = 5, hashChunk = 0xcfbbdda3ee7df41091f6386a415d0a0b7cf673aef77112440039f8116146f38f, nSize = 52428800 \<rparr>,
    \<lparr> nChunkNumber = 6, hashChunk = 0x2508a27d2cbcb2f1140910408d0cc2858c2b027a73c5d43d8b43074f9cd6d044, nSize = 52428800 \<rparr>,
    \<lparr> nChunkNumber = 7, hashChunk = 0x3b1d1a41aadfb4ba30f4fc206ce6da20531f593276f9f988798ccaf42b6bcd45, nSize = 52428800 \<rparr>,
    \<lparr> nChunkNumber = 8, hashChunk = 0x5dd3589b6f31bcf8151159e606c6dd9eec8e72e83b75e10eeed46081d5ba6476, nSize = 52428800 \<rparr>,
    \<lparr> nChunkNumber = 9, hashChunk = 0x58fe81496a9f0b860ecc9286f9cf6419f9289325a8781fa920a806e193ca742a, nSize = 52428800 \<rparr>,
    \<lparr> nChunkNumber = 10, hashChunk = 0x727c9b44225d35b57bbfdbcaa4becc3a671ff63ac3485d147186898c157302b3, nSize = 52428800 \<rparr>,
    \<lparr> nChunkNumber = 11, hashChunk = 0xb65c4ffbee3e1f1ab2edb91aa3d37800ccf86442dc0a33fe5d0c06e84181c5b9, nSize = 52428800 \<rparr>,
    \<lparr> nChunkNumber = 12, hashChunk = 0x3b4b2a5514dca25af92b058551bd2d7d01d9d8a73c9514fe23068c29414e76f4, nSize = 52428800 \<rparr>,
    \<lparr> nChunkNumber = 13, hashChunk = 0xdc2c5aa1852f6b19e93fb7bdcdbcb242f5b66ec6cd7de72b554067ec06cea524, nSize = 52428800 \<rparr>,
    \<lparr> nChunkNumber = 14, hashChunk = 0x0f7496a4d3ab49e8c2ec06d4c383eec0b3fd14f99471d97acf21a8697b5e0f13, nSize = 52428800 \<rparr>,
    \<lparr> nChunkNumber = 15, hashChunk = 0x55f519125cd225dcacd742097f364461b4e676326fbb86055886888e38bf46c3, nSize = 52428800 \<rparr>,
    \<lparr> nChunkNumber = 16, hashChunk = 0x9f72efa68284ff81bea4b36b452169baf65340c7668c7f510abe4d47088acd30, nSize = 52428800 \<rparr>,
    \<lparr> nChunkNumber = 17, hashChunk = 0x0e228ae7407b0bd7c39a19b41abac3cd5fe7c9eebb9b8d72333bbb06df834fb2, nSize = 52428800 \<rparr>,
    \<lparr> nChunkNumber = 18, hashChunk = 0xd6047cbc29b11620f017ec89d8cc86a0d0258db0c55e90b50599e754b11fb91f, nSize = 52428800 \<rparr>,
    \<lparr> nChunkNumber = 19, hashChunk = 0x68d6217a6a89381c06128e748500708ab226ea49b26ade8a803f1c009ace7068, nSize = 52428800 \<rparr>,
    \<lparr> nChunkNumber = 20, hashChunk = 0xed5bfc006acb01007858cde7d49eefec0c881d90cf879b2d98a13132dc9481b3, nSize = 52428800 \<rparr>,
    \<lparr> nChunkNumber = 21, hashChunk = 0x2cea773273b37b21b1b5554b8a0e6f47097da7d0f144eda79a4f2902ed222d91, nSize = 52428800 \<rparr>,
    \<lparr> nChunkNumber = 22, hashChunk = 0x5c6c09c53bf97aa6c54612288fe3f63183c8cdcbfea7865bee2ae34d7b1bc0cc, nSize = 52428800 \<rparr>,
    \<lparr> nChunkNumber = 23, hashChunk = 0xa1b3c73ca152502fb05c9f429afd294d3c5746b4d063bbcbc8ca883b888f0f35, nSize = 52428800 \<rparr>,
    \<lparr> nChunkNumber = 24, hashChunk = 0x2662599e9d9795508668252d5898d920e540ea45b1e735aba825988d9a061270, nSize = 52428800 \<rparr>,
    \<lparr> nChunkNumber = 25, hashChunk = 0xd8d85f699408ca4f0e7ae31b91e6d37508468def47519b31c77785b75e7118e3, nSize = 52428800 \<rparr>,
    \<lparr> nChunkNumber = 26, hashChunk = 0xd98717fb1aac8fa12b8db443011860e94d1770e238d26b80f5d98220c923326c, nSize = 52428800 \<rparr>,
    \<lparr> nChunkNumber = 27, hashChunk = 0x256b50e8bcf82eaae50acdba162fdfebd823da0b86812dd99602c5f961b47144, nSize = 52428800 \<rparr>,
    \<lparr> nChunkNumber = 28, hashChunk = 0xc630d32e583d2f6aa38b89235d98dbff171818fef973604470fef8b04f61f348, nSize = 52428800 \<rparr>,
    \<lparr> nChunkNumber = 29, hashChunk = 0xe98d32acc3acc34d85b846105a914a14af95892f5d7c98010030a385aa953747, nSize = 52428800 \<rparr>,
    \<lparr> nChunkNumber = 30, hashChunk = 0x7ea2dc3340a7649404a4ace788558e13dd0591cb958d8a03b1b2d44a412e0cb4, nSize = 52428800 \<rparr>,
    \<lparr> nChunkNumber = 31, hashChunk = 0x3a452b597869bed16f967ec038d909d08dd05a88e19b9d4a5a92e1571b774cf2, nSize = 52428800 \<rparr>,
    \<lparr> nChunkNumber = 32, hashChunk = 0x78fd824527c3296b50378cc456198e0e30421b583876c49a61b955df2b0b8464, nSize = 52428800 \<rparr>,
    \<lparr> nChunkNumber = 33, hashChunk = 0x2a0efcc5ab09b2193cba2d167938ff66f23987d39d833f4b619dd4908a4962dd, nSize = 52428800 \<rparr>,
    \<lparr> nChunkNumber = 34, hashChunk = 0xaee149793d80d326b3122555ac9d37b68a8744bffe13fd8bd93983e5b59cdab6, nSize = 52428800 \<rparr>,
    \<lparr> nChunkNumber = 35, hashChunk = 0x4d228c9d298b60cfbe5b3d2de6a859b8209da933e0aa723b164ed1777bca95e9, nSize = 52428800 \<rparr>,
    \<lparr> nChunkNumber = 36, hashChunk = 0x8f75532327d628fdfe4fd91804a95d3e9b4f59b19051b878880417ddcfc358f5, nSize = 52428800 \<rparr>,
    \<lparr> nChunkNumber = 37, hashChunk = 0xa67206b51135837aa3b2c5655b2ddda2db0c6f55df5c14bc7ae0d8df38c0b2cc, nSize = 52428800 \<rparr>,
    \<lparr> nChunkNumber = 38, hashChunk = 0x9ec6dad4f403a391d36b64238155c6f6bcfb3a1ff06dd9d90de6465bfafc9ae0, nSize = 52428800 \<rparr>,
    \<lparr> nChunkNumber = 39, hashChunk = 0xb2effdb7eb30ad9cc370aae07d07f31ac17dff411b5c2948cadcd86dff8a668d, nSize = 52428800 \<rparr>,
    \<lparr> nChunkNumber = 40, hashChunk = 0x6a788caffcb154750e6168ee6d84c483dc0a17cd5f75771bc1636645e1b7b651, nSize = 52428800 \<rparr>,
    \<lparr> nChunkNumber = 41, hashChunk = 0x986da50c38ec19700bbb12279108087f0488836ccfc035b1b2b496c6b7f4e199, nSize = 52428800 \<rparr>,
    \<lparr> nChunkNumber = 42, hashChunk = 0x263d101cd2aa377d16ab6b1010389d082d26bc5c0e30e5254cc51554ecbddff6, nSize = 52428800 \<rparr>,
    \<lparr> nChunkNumber = 43, hashChunk = 0x2401d94e829daaa0b3fae36dcb3349b7929825e867ad79b4758fa3f9f5e220cd, nSize = 52428800 \<rparr>,
    \<lparr> nChunkNumber = 44, hashChunk = 0x9b3903c6faf8d9620e551630bd6503d6ed82662b9c38e816142da03c500ca3d8, nSize = 52428800 \<rparr>,
    \<lparr> nChunkNumber = 45, hashChunk = 0x8b1cad0649ee5f5dc02cbfe29bce466118a4e5ef83e0fb3d00776fc198e065c6, nSize = 52428800 \<rparr>,
    \<lparr> nChunkNumber = 46, hashChunk = 0xc0abbfe48d05de579503fdc70b694952e29b43e6a6caff4ed89f67546e2e5d53, nSize = 52428800 \<rparr>,
    \<lparr> nChunkNumber = 47, hashChunk = 0x55325c4b139ce800ea67f0ad0e32276d49df1f7bd5b1e12a7eceb52e3a8bd647, nSize = 52428800 \<rparr>,
    \<lparr> nChunkNumber = 48, hashChunk = 0x84e0760c3d8157e8d6fcdb38ed9100652c61448e529ebd5c394165ec0afaaaea, nSize = 52428800 \<rparr>,
    \<lparr> nChunkNumber = 49, hashChunk = 0x387ee373d5b4bdcb4ad37d611491721322ef5ebfed4b79004e439e53aeb3b798, nSize = 52428800 \<rparr>,
    \<lparr> nChunkNumber = 50, hashChunk = 0x15627454c84d954f5505b03855402dfa828e6c4b466e436b978f7daf20c02d89, nSize = 52428800 \<rparr>,
    \<lparr> nChunkNumber = 51, hashChunk = 0x88124b1891f4773103aabf7dd185274dd27024d9152a5a8d9d17c1c3f2e26050, nSize = 52428800 \<rparr>,
    \<lparr> nChunkNumber = 52, hashChunk = 0x3245002534ae0bc65d6d81db199c4875bf9fbfe6619540747d92dd85947244e6, nSize = 52428800 \<rparr>,
    \<lparr> nChunkNumber = 53, hashChunk = 0x4ac0b23d1cae85034e60da6e011c2e888bf94f1233fe3b7c72d7aabca831a20c, nSize = 52428800 \<rparr>,
    \<lparr> nChunkNumber = 54, hashChunk = 0xb1173c397b77e0101703a02a1da9bcac7c22a0c2821fab4f5b87960b79361909, nSize = 52428800 \<rparr>,
    \<lparr> nChunkNumber = 55, hashChunk = 0x40ecde451471d44b13f8530df30184c4ea80130c6971e48dd95e49d90ca80452, nSize = 52428800 \<rparr>,
    \<lparr> nChunkNumber = 56, hashChunk = 0xa9c7775de64da2ad9d732563d210940210f07d7ad937b1ed6068552d981783c6, nSize = 52428800 \<rparr>,
    \<lparr> nChunkNumber = 57, hashChunk = 0x0dffbb1d004f09057b75443a4f37f84105a241ee2b11ad79c6d47d8ccfccc277, nSize = 52428800 \<rparr>,
    \<lparr> nChunkNumber = 58, hashChunk = 0xca4eec52ed96c2fd63c4819154c7ce8f0518603238cfdefd8242d159ede648e5, nSize = 52428800 \<rparr>,
    \<lparr> nChunkNumber = 59, hashChunk = 0xc59fc48dfd40eb144ba98452ca260305934df689788726d8f9a1fe9c7907bc4b, nSize = 52428800 \<rparr>,
    \<lparr> nChunkNumber = 60, hashChunk = 0x230cbb840409be367af840fb737bc855bd80c8841f542eae0f915b6773711b4e, nSize = 52428800 \<rparr>,
    \<lparr> nChunkNumber = 61, hashChunk = 0x4a8032f1c0a5c28020dc32bb8b51ed2adad896d48a99f2f7aad28254477c98ac, nSize = 52428800 \<rparr>,
    \<lparr> nChunkNumber = 62, hashChunk = 0xd406a7fb2c6bf9adf400c647b321a60c3e4f7f8d49673f0d1d9136947211e817, nSize = 52428800 \<rparr>,
    \<lparr> nChunkNumber = 63, hashChunk = 0x554f409d010c727593ea0e29e6fcb521bc8a2572f6603bbc11b47c8f316988a9, nSize = 52428800 \<rparr>,
    \<lparr> nChunkNumber = 64, hashChunk = 0x23ea989ed943382845313e158f4ec7ab826817598af62788fab9eb6c0515820a, nSize = 52428800 \<rparr>,
    \<lparr> nChunkNumber = 65, hashChunk = 0x4628797d30551f27a164d489781b77b3ae221ddeadcc71da0fa55071959cf6ce, nSize = 52428800 \<rparr>,
    \<lparr> nChunkNumber = 66, hashChunk = 0x6a0bf0aaf18bf9fd9fa117186be6e2880a210cc7484143c39e30b4544c5853f9, nSize = 52428800 \<rparr>,
    \<lparr> nChunkNumber = 67, hashChunk = 0x0a02fbf7f3891513c01df52468afcfa94d72e990ce7106776bc3889a6d3a7a39, nSize = 52428800 \<rparr>,
    \<lparr> nChunkNumber = 68, hashChunk = 0xc1c9d4bfd91b67c476ccfb6bc26911d4174d21809b75927b7bf6869828e8053a, nSize = 52428800 \<rparr>,
    \<lparr> nChunkNumber = 69, hashChunk = 0xe73562096fb52cc3cffa5bc5a75b1a548d9b3f2f81238c7c5fa4f535f12d2911, nSize = 52428800 \<rparr>,
    \<lparr> nChunkNumber = 70, hashChunk = 0x1cf30fc0d4a8499f287b19826e65e6fb333c06e76c53922f1f17cf96f961cbdf, nSize = 52428800 \<rparr>,
    \<lparr> nChunkNumber = 71, hashChunk = 0x31d9bbb42fb71e9a7f7ddc2d2c8e846e72a369914e02dbfbd57fb57516467051, nSize = 52428800 \<rparr>,
    \<lparr> nChunkNumber = 72, hashChunk = 0xe95ad01e6bf224d1fefb3c600eef235169c21bbe7f792416e90d50342d5f131c, nSize = 52428800 \<rparr>,
    \<lparr> nChunkNumber = 73, hashChunk = 0x3c4d6f58fe267d0b489d9e44ecc0d2cbbb1155edfd5dd300c9ab2db34591315c, nSize = 52428800 \<rparr>,
    \<lparr> nChunkNumber = 74, hashChunk = 0x6ef9ee05c05651ad676b29d76319b780db1b5a4623d2ec2173c68d2d078d5427, nSize = 52428800 \<rparr>,
    \<lparr> nChunkNumber = 75, hashChunk = 0xab2c84b8dd4ebe3c346e41d26cb90d9e3133625a82e2930928b09e4e3fdabab0, nSize = 52428800 \<rparr>,
    \<lparr> nChunkNumber = 76, hashChunk = 0x4e7ea0a43158648e421fb9d3925d78d403f63963225739f995aec36085e1ff8b, nSize = 52428800 \<rparr>,
    \<lparr> nChunkNumber = 77, hashChunk = 0x893416a8fb987d748cfe2fa3775beb7ce2e43ca04470f8687397d9e581f887ad, nSize = 52428800 \<rparr>,
    \<lparr> nChunkNumber = 78, hashChunk = 0x2fc52590251c07e990df62bc7a35e587c9acf442d9c4cecc10eeaeee9068659b, nSize = 52428800 \<rparr>,
    \<lparr> nChunkNumber = 79, hashChunk = 0xa9c7376205904591b77955a11c235e9339188750c4d0e59b5695616d1d2e589a, nSize = 52428800 \<rparr>,
    \<lparr> nChunkNumber = 80, hashChunk = 0xa30b72f480dbffd2e5222f402e5072f6b16c71bcc5b7b0175d412f4e4b7e7ef3, nSize = 52428800 \<rparr>,
    \<lparr> nChunkNumber = 81, hashChunk = 0x0e5cd004def0cc06dbb8299a2e9db9feab2849bd887639e0dd90fa9e4a2bd31f, nSize = 52428800 \<rparr>,
    \<lparr> nChunkNumber = 82, hashChunk = 0x550403c8860f35af058471d47c8d16bc22e3ea9be4f2323822251baea18b1edd, nSize = 52428800 \<rparr>,
    \<lparr> nChunkNumber = 83, hashChunk = 0x71def6e4d8a51257398dec201910c48bef57b08ec85f4b78097f98df98a4090b, nSize = 52428800 \<rparr>,
    \<lparr> nChunkNumber = 84, hashChunk = 0x8f9f98c39d319a0a15f7284e95951c3bb3248ad77fe5b312beb08fdfbba2e105, nSize = 52428800 \<rparr>,
    \<lparr> nChunkNumber = 85, hashChunk = 0xe8b8c15580542b55eca3ece1e327a32fdf1a282d99f87fe52fca8099ba87ba52, nSize = 52428800 \<rparr>,
    \<lparr> nChunkNumber = 86, hashChunk = 0x44cc3d005f20552c7e4605fb5245ce7d3917af6debee94c1fd41f8b2b7f22d69, nSize = 52428800 \<rparr>,
    \<lparr> nChunkNumber = 87, hashChunk = 0x7a87d5c39fce58749bd7504b0318edb0dfbde5ccb507145dfcd188b7bd1a8021, nSize = 52428800 \<rparr>,
    \<lparr> nChunkNumber = 88, hashChunk = 0xafc0a40b277ea2549f500a8c7491932e13f211a02262d8be1c262890debc53f6, nSize = 52428800 \<rparr>,
    \<lparr> nChunkNumber = 89, hashChunk = 0xd322a021f54833ff529ebcb708c668a2b69495c4cff3ebec1e8e3359294f53e8, nSize = 52428800 \<rparr>,
    \<lparr> nChunkNumber = 90, hashChunk = 0x1f7733351c0c68cd1bc3f47bf34897fc209ab1f2fafde3b6a153e7d61541aaf7, nSize = 52428800 \<rparr>,
    \<lparr> nChunkNumber = 91, hashChunk = 0x74cdc6dd292386fdd4ac6fc699b6d72d7bfd0643ff25839e2db71218e4cc31f8, nSize = 52428800 \<rparr>,
    \<lparr> nChunkNumber = 92, hashChunk = 0x9e0cb226a128ef1fc8d9b36eb8ace88175158cc29dc8c17b6a6b4c5e061112fa, nSize = 52428800 \<rparr>,
    \<lparr> nChunkNumber = 93, hashChunk = 0x0b256226bd421b52c357a39eb5e754a7bd9b8c4f37f9582a981a6eba2fe36b08, nSize = 52428800 \<rparr>,
    \<lparr> nChunkNumber = 94, hashChunk = 0x2af7ab13e097fe09a3bf5c4b1b873d4699819b4c9164f286c92151796d739433, nSize = 52428800 \<rparr>,
    \<lparr> nChunkNumber = 95, hashChunk = 0x7d7e3f30ea6ded736ee370d9d2679a6396086e1e162ceacc6637b70557e16563, nSize = 52428800 \<rparr>,
    \<lparr> nChunkNumber = 96, hashChunk = 0xeccd6e66a23c39dacd67bfa466a3f3d4b7d0871e147ec38195a76b5068b32306, nSize = 52428800 \<rparr>,
    \<lparr> nChunkNumber = 97, hashChunk = 0xda3f8590607480af70c667efa0c3d5983b68338921bb3aeceb00e06c016f95d3, nSize = 52428800 \<rparr>,
    \<lparr> nChunkNumber = 98, hashChunk = 0x8e0b21a52a5237974291988c366bc4d0ade40003ce322f877b6399d128e4bf63, nSize = 52428800 \<rparr>,
    \<lparr> nChunkNumber = 99, hashChunk = 0xdab3d8d2d4421be9babe1668ac9ebfdfd9fba3465e2222ad743e255c3bdca240, nSize = 52428800 \<rparr>,
    \<lparr> nChunkNumber = 100, hashChunk = 0xc04a79584ba6d7985f8f409909d465f73b3dc326735a0d593f400afcdbdc1c41, nSize = 52428800 \<rparr>,
    \<lparr> nChunkNumber = 101, hashChunk = 0x8b0d76852bc194bfaf5ff64d318943274d79d392094e936cbbeba05f81f76332, nSize = 52428800 \<rparr>,
    \<lparr> nChunkNumber = 102, hashChunk = 0x56155b3138e0c5860f456dfaefd386e6134bb26e20c5e05416a71dd1c6ae6d0e, nSize = 52428800 \<rparr>,
    \<lparr> nChunkNumber = 103, hashChunk = 0x5e6e0c6e00bf0801d9ff2cee0aedd0936f3bc71bc0463127427e75646d090f91, nSize = 52428800 \<rparr>,
    \<lparr> nChunkNumber = 104, hashChunk = 0xa333f7ca131bde238a1b7ca3c761f310c2cf3dcfb2eee824dbf9bf964dec80d8, nSize = 52428800 \<rparr>,
    \<lparr> nChunkNumber = 105, hashChunk = 0xa318357d14fd22194806ae605030cc8aa917e1c98d3acdaad78ba089c4dbb390, nSize = 52428800 \<rparr>,
    \<lparr> nChunkNumber = 106, hashChunk = 0x047db461a515e7cc14be2632e374a7923a058b8543b3469cf113f5048e074757, nSize = 52428800 \<rparr>,
    \<lparr> nChunkNumber = 107, hashChunk = 0x80f8110f214696a1c11f7d8d40172719689254e402201496e1c67508470033fd, nSize = 52428800 \<rparr>,
    \<lparr> nChunkNumber = 108, hashChunk = 0xb4da1aea1c3b8c6d440cbbfa0483b1af7385d4d8514a6832e11095ea4dc35d2c, nSize = 52428800 \<rparr>,
    \<lparr> nChunkNumber = 109, hashChunk = 0x383c86b3e43f256e425fa53bf5d1aef45600c8a567cc14c224e50e773f2f0cea, nSize = 52428800 \<rparr>,
    \<lparr> nChunkNumber = 110, hashChunk = 0x5d880e24d51a3154df3138d2d46240d684c33e481c9418b778e75d56dd293e03, nSize = 52428800 \<rparr>,
    \<lparr> nChunkNumber = 111, hashChunk = 0x41378fa23a82dd66032343056e63b591d8897b2114024d922fba450c3f8b6623, nSize = 52428800 \<rparr>,
    \<lparr> nChunkNumber = 112, hashChunk = 0x47565fe962cad279f5aa8262f883dd21a551d9aa0a9ecada110bd8e1f08ab9e6, nSize = 52428800 \<rparr>,
    \<lparr> nChunkNumber = 113, hashChunk = 0x366a079cb3e902e867706f2d0170264a1796762bfc348c2d098e62c6b386ffb4, nSize = 52428800 \<rparr>,
    \<lparr> nChunkNumber = 114, hashChunk = 0xabc74b8fe1fd8377a0469146661f1cbd88759813fa390818d0afdc1782421914, nSize = 52428800 \<rparr>,
    \<lparr> nChunkNumber = 115, hashChunk = 0xf2bffa87dc9776f4639eb6002110366bd706e8ac57035abeb20f122c786a3470, nSize = 52428800 \<rparr>,
    \<lparr> nChunkNumber = 116, hashChunk = 0x7a66fcb47d5d9d9bdc6070b48d6d0b0bf69a218b650eb110303bde43f28c899d, nSize = 52428800 \<rparr>,
    \<lparr> nChunkNumber = 117, hashChunk = 0x2ad75290f043fad0d58edb10e658d44a719b206a7eb1dbee00ddafc8fa2c53e9, nSize = 52428800 \<rparr>,
    \<lparr> nChunkNumber = 118, hashChunk = 0xf7509d851f7e7323351b9fdc2687bd0f29234f6085ecd0fc2ae4bc51051a2208, nSize = 52428800 \<rparr>,
    \<lparr> nChunkNumber = 119, hashChunk = 0x4b1eb35ad7bc3e06be99cfede0e4c16b308ccae451223651abf9afc7c642df81, nSize = 52428800 \<rparr>,
    \<lparr> nChunkNumber = 120, hashChunk = 0x11321c2f2360707a793419524fc4ccf1d00fab0d5dbf6a0e15f60aaa2977276e, nSize = 52428800 \<rparr>,
    \<lparr> nChunkNumber = 121, hashChunk = 0x1d2674aaba4db787a41146e797d23401fd057df6cbda7c2b45035d0ce7e034d6, nSize = 52428800 \<rparr>,
    \<lparr> nChunkNumber = 122, hashChunk = 0x5794c28139a9222ce497a97475033e3234ebda6d8284859851e08d4e88ef77f0, nSize = 52428800 \<rparr>,
    \<lparr> nChunkNumber = 123, hashChunk = 0x9971a2ae5884ea520870a0ab7c807c9a950ccb650173062e199a1eb718cd45bb, nSize = 52428800 \<rparr>,
    \<lparr> nChunkNumber = 124, hashChunk = 0x79682e895f08a4192358c84c25c2659ca17a39dd0131673f6bc42b2d7a0ef255, nSize = 52428800 \<rparr>,
    \<lparr> nChunkNumber = 125, hashChunk = 0x36476d9106de3ad7f70e97c2ca6ed7ce969febf5f87602c7c3bacc34aea6652d, nSize = 52428800 \<rparr>,
    \<lparr> nChunkNumber = 126, hashChunk = 0x987e5bc27e8eb4523a6761f404c5326306392fbbafce1bfbde5cc0e5071c9267, nSize = 52428800 \<rparr>,
    \<lparr> nChunkNumber = 127, hashChunk = 0x09d178c896e8859c03f79e7cf316686976892849087fe7a0870461b80182569c, nSize = 52428800 \<rparr>,
    \<lparr> nChunkNumber = 128, hashChunk = 0x1e6b8a636fd2fe1a7343dc4e4326a5d38449639c21e6767cb352fbdcb7ceae12, nSize = 52428800 \<rparr>,
    \<lparr> nChunkNumber = 129, hashChunk = 0x351508b2af4cb6bc79f768303ac728611bb7a0ce89227c92fd5c18b62085e9be, nSize = 52428800 \<rparr>,
    \<lparr> nChunkNumber = 130, hashChunk = 0xb059428265de73c2577031389d49244320b091920acc237b7570355023eb1268, nSize = 52428800 \<rparr>,
    \<lparr> nChunkNumber = 131, hashChunk = 0x46de5a1f5c02f7027af3344c54b90f480a9f0b94191818f9461ca169ffd857f6, nSize = 52428800 \<rparr>,
    \<lparr> nChunkNumber = 132, hashChunk = 0x68f67cbf9f58984d4f0f9fbf8b15edabd22600726ac576bbebe512cf75008921, nSize = 52428800 \<rparr>,
    \<lparr> nChunkNumber = 133, hashChunk = 0x6e8e0be5933f05d800ed13ffed9275b5fb312d6f7a481e72333835d7a9702b55, nSize = 52428800 \<rparr>,
    \<lparr> nChunkNumber = 134, hashChunk = 0xc1e953945b2df9b4261d3e3b81db62a2412c48e98890bd53ff4173de3e3a17aa, nSize = 52428800 \<rparr>,
    \<lparr> nChunkNumber = 135, hashChunk = 0x79afc3ade1f9b0c94cd9512d152cc41d64812c826cc5ce5b64b929c07713fe50, nSize = 52428800 \<rparr>,
    \<lparr> nChunkNumber = 136, hashChunk = 0x1719378f17284dd461e7812d230797cfdebbb9d7ee6e1c0d2390a37401a0c582, nSize = 52428800 \<rparr>,
    \<lparr> nChunkNumber = 137, hashChunk = 0xaf81c62616164dfd190d094223ae0b2975076910d9fce52406ba3ddcc9b5cc3b, nSize = 52428800 \<rparr>,
    \<lparr> nChunkNumber = 138, hashChunk = 0x02beabed5eb2d12c9567509a62a7e1e482794f845f8aff8966bb34c7ab05d9f4, nSize = 52428800 \<rparr>,
    \<lparr> nChunkNumber = 139, hashChunk = 0x6f00a58676c0f1c3bab07b3039461a165012f6079245594a7e9e9156b6f2106e, nSize = 52428800 \<rparr>,
    \<lparr> nChunkNumber = 140, hashChunk = 0xdecf73bdb5e678fc64a4997bbb6abf8a918c2dbceb01333b63dd98659bd6eabd, nSize = 52428800 \<rparr>,
    \<lparr> nChunkNumber = 141, hashChunk = 0x83e8e87758e9c4601b4ef6eef50e56aebb1afd0fb6d21db55692b9c674b42d52, nSize = 52428800 \<rparr>,
    \<lparr> nChunkNumber = 142, hashChunk = 0xb9a507bca753b08ba32e8cc9df36978f6e597674f1416983c6a84e33e0b96b64, nSize = 52428800 \<rparr>,
    \<lparr> nChunkNumber = 143, hashChunk = 0x2602937a1ff0412c37b727f19618db3280015c8effa7c1f65ec69095bfdfd4e6, nSize = 52428800 \<rparr>,
    \<lparr> nChunkNumber = 144, hashChunk = 0xc2764e2c68524a6ae369f8e924baff134f1c888e187eba797dbe3de7dd46396b, nSize = 52428800 \<rparr>,
    \<lparr> nChunkNumber = 145, hashChunk = 0x6aa680fe27da34f3e54ae1b2b7df455cb497f0b5974a261add9866fb8c26d94e, nSize = 52428800 \<rparr>,
    \<lparr> nChunkNumber = 146, hashChunk = 0x55c6425cb9ebefc1f5a1221c160cb1b7ef950a1eed506645c96e76d926d88330, nSize = 52428800 \<rparr>,
    \<lparr> nChunkNumber = 147, hashChunk = 0xc9c605ac0bb194a5276a2ac14892d57b52abfe9258285c7a8a27ebb56848d5f9, nSize = 52428800 \<rparr>,
    \<lparr> nChunkNumber = 148, hashChunk = 0xe91072a472a257e3f387a3109c6e1521bbc73e26030985f8117313e3fac10fda, nSize = 52428800 \<rparr>,
    \<lparr> nChunkNumber = 149, hashChunk = 0x5bb0242392e537c1b37a12e886806102c0254639ce6ec790a400f4e448314788, nSize = 52428800 \<rparr>,
    \<lparr> nChunkNumber = 150, hashChunk = 0x031bf898502ee1a088233326a93ad878b09d51779534cd9600ee3e2548cf5aa5, nSize = 52428800 \<rparr>,
    \<lparr> nChunkNumber = 151, hashChunk = 0x4d696947ac80f32ab8577cb1a00dcaba982148c0103eb72026b5fab6ddd77eca, nSize = 52428800 \<rparr>,
    \<lparr> nChunkNumber = 152, hashChunk = 0x8276ab7f7193b7947160eb0946fc007bd3dc4ce32c92d9d2d7b4ee1a86a91b7f, nSize = 52428800 \<rparr>,
    \<lparr> nChunkNumber = 153, hashChunk = 0x93f5778e30040d9df60b0fac08368b6ed1d7dd2e13b79b086722a8925a98e5d2, nSize = 52428800 \<rparr>,
    \<lparr> nChunkNumber = 154, hashChunk = 0x3aae45aef62e87e1e2c09e2aab4923043771fe6e20a78c4f6ab5960c6dbe5542, nSize = 52428800 \<rparr>,
    \<lparr> nChunkNumber = 155, hashChunk = 0x1f86e231039597aade4cc8136bd8a0fe44768b4d4b9e0d5335470ae3afdf7de5, nSize = 52428800 \<rparr>,
    \<lparr> nChunkNumber = 156, hashChunk = 0x652e1520c9594caeadc3edf22ba91cd6e54f173bea593156d487ec02c1040016, nSize = 52428800 \<rparr>,
    \<lparr> nChunkNumber = 157, hashChunk = 0x8969d9073dba3ff20af00eff6216bcbad60879ea4ff543f7672abd8575ec380a, nSize = 52428800 \<rparr>,
    \<lparr> nChunkNumber = 158, hashChunk = 0x6c2aacb206f9359f3bbc5093ea6c3c69116a33eba8b7163b75b22665acb046a0, nSize = 52428800 \<rparr>,
    \<lparr> nChunkNumber = 159, hashChunk = 0xb5999dbb40fbbda0a2b6be0d95069c4e937ed882b7184fb1d667ee9373265c80, nSize = 52428800 \<rparr>,
    \<lparr> nChunkNumber = 160, hashChunk = 0x97ff53a2c18cd994f8021b7568af9afb6458cf7cafc1e3b82cb810bf641fe2af, nSize = 52428800 \<rparr>,
    \<lparr> nChunkNumber = 161, hashChunk = 0x7a0d8412aea9a9e7d0e7bccc8a214cbb6ad66ffe75e7daa864418d82c92133d4, nSize = 52428800 \<rparr>,
    \<lparr> nChunkNumber = 162, hashChunk = 0x65ba7f3449cda0f0a9af31e564db91ac12c384ed6df6258576736b6bd213dada, nSize = 52428800 \<rparr>,
    \<lparr> nChunkNumber = 163, hashChunk = 0x86b92a4b560a6d46ab52bb672040b575b03c5b4d002281da54dd2127d6fb403f, nSize = 52428800 \<rparr>,
    \<lparr> nChunkNumber = 164, hashChunk = 0x19434df675c1bee008ea9450e643c5d84ba48c0b3271f377c979aa75329b42a4, nSize = 52428800 \<rparr>,
    \<lparr> nChunkNumber = 165, hashChunk = 0x09da3a2a3dba988c4d88f1dd59250fa9f6fade408d436e58f06846c1b813da4c, nSize = 52428800 \<rparr>,
    \<lparr> nChunkNumber = 166, hashChunk = 0x4fe41d008b49da7c23ca714081b0cbc121f6801b644ff59b7f50ccb70d762810, nSize = 52428800 \<rparr>,
    \<lparr> nChunkNumber = 167, hashChunk = 0xfcc1252a2b3e25eb29c5750acb5b5b8c0e608bc0b3adf4aa3806fb32c3a1bde7, nSize = 52428800 \<rparr>,
    \<lparr> nChunkNumber = 168, hashChunk = 0xf0261c4e5ce5c6169bf427c5a7cbe67e2209b3dd242c1e81283b41e512800896, nSize = 52428800 \<rparr>,
    \<lparr> nChunkNumber = 169, hashChunk = 0x313b0350d7f46d3e5629515cb205ca19d0e5eef37d344e34c90616940b277170, nSize = 52428800 \<rparr>,
    \<lparr> nChunkNumber = 170, hashChunk = 0x916f76fdc915398167419bec551a8697face9a1200e19cfd3e4fcd45b583f32f, nSize = 40118312 \<rparr>]"

definition GetHardcodedManifest :: CSnapshotManifest where
  "GetHardcodedManifest =
     \<lparr> nBlockHeight = 2879438, nTimestamp = 1760886990, nTotalSize = 8953014312,
       vChunks = GetHardcodedManifest_chunks \<rparr>"

definition GetHardcodedParamsManifest_chunks :: "CSnapshotChunkInfo list" where
  "GetHardcodedParamsManifest_chunks = [
    \<lparr> nChunkNumber = 0, hashChunk = 0xa46904a35985af803cc57ad3f32a4062f47181034b09aefb5e9aa026d759176a, nSize = 52428800 \<rparr>,
    \<lparr> nChunkNumber = 1, hashChunk = 0x0b74c5a2dc84818f89647eb762dfacdc5f74fde601b15841b4916660432b0a4b, nSize = 52428800 \<rparr>,
    \<lparr> nChunkNumber = 2, hashChunk = 0xcfe658eb76c7d90dc205c46f6b8e9b8428f4739ac7d35ae627e87b6e5adfd0e2, nSize = 52428800 \<rparr>,
    \<lparr> nChunkNumber = 3, hashChunk = 0x4fc7126fa201f01d1d9b3b1f82c3c1f042e08e864da91adc598699555c9a8b13, nSize = 52428800 \<rparr>,
    \<lparr> nChunkNumber = 4, hashChunk = 0xc86b18955df31669feeecf873142d595dfecf5bf15d852e06a21593cb90c31ca, nSize = 52428800 \<rparr>,
    \<lparr> nChunkNumber = 5, hashChunk = 0xb4e63753c5fe732c2e7af36161c3cfeef5c4d90df7ed1586d695e3c68227ca99, nSize = 52428800 \<rparr>,
    \<lparr> nChunkNumber = 6, hashChunk = 0xf5e134ff763f5aff24acb210e386886755b3124c5470f0d808e6f808ef2101d1, nSize = 52428800 \<rparr>,
    \<lparr> nChunkNumber = 7, hashChunk = 0x3e86e8376d13ff15551206cd72ce27176b6bf9ef1101e57101c9dbb5aea06700, nSize = 52428800 \<rparr>,
    \<lparr> nChunkNumber = 8, hashChunk = 0x08f25b63388e2944143501924f189b27255de993d3626ffaca5c1d3322c14089, nSize = 52428800 \<rparr>,
    \<lparr> nChunkNumber = 9, hashChunk = 0x05912f9ab06fc9777b07116807aa7ea0b29fb7306e5971ef5bd929bb04ecd14a, nSize = 52428800 \<rparr>,
    \<lparr> nChunkNumber = 10, hashChunk = 0x1f57bef4b8eb50d6891f82ac5f32579bab2b4cab7adb1ef7a8295fffaa5ac16e, nSize = 52428800 \<rparr>,
    \<lparr> nChunkNumber = 11, hashChunk = 0xb4b65d27bb87a54ec8a9cac3b96d146e3bb12786750a318bfbbe6cfb0bfd9c37, nSize = 52428800 \<rparr>,
    \<lparr> nChunkNumber = 12, hashChunk = 0x55adf7896737363688a160c3b16dad9a6cec9110dbbcf492d9e1878c6b3f5766, nSize = 52428800 \<rparr>,
    \<lparr> nChunkNumber = 13, hashChunk = 0xf9e85550026030d149d16e54e554788fb1cc4b4794c0c4e3c3621b7507a15e01, nSize = 52428800 \<rparr>,
    \<lparr> nChunkNumber = 14, hashChunk = 0xf774b63dc9efd500045d0e9f5fb29bc02e8ff664633b591e604a5a7bf0e4dfff, nSize = 52428800 \<rparr>,
    \<lparr> nChunkNumber = 15, hashChunk = 0x5da0ce24fdb36c8910512ef642e5629a7149c4d0c3e1a2b48f64cf65dc59abd4, nSize = 52428800 \<rparr>,
    \<lparr> nChunkNumber = 16, hashChunk = 0xf033d49e967867ef134230ec0317fc80ef8769a711aa3b270a0328c200cf7c14, nSize = 52428800 \<rparr>,
    \<lparr> nChunkNumber = 17, hashChunk = 0xeed88f02d384a3ccd5c5f7d5a8ab64eb632042ac41ac8a34f4e72f2d3b8d93d3, nSize = 52428800 \<rparr>,
    \<lparr> nChunkNumber = 18, hashChunk = 0x4d7616ef6d2a10103d279e7c67445dcb7ff2118a110849179539a23d056b6bf9, nSize = 52428800 \<rparr>,
    \<lparr> nChunkNumber = 19, hashChunk = 0x1840f59366848a59f44306d51ac82588e6fa59f5fc1293f21eef3244345a3853, nSize = 52428800 \<rparr>,
    \<lparr> nChunkNumber = 20, hashChunk = 0x6a4faa50032983f53acd1391c8f39bbae90c9acccb5e6a9b94d698cd6f3afabc, nSize = 52428800 \<rparr>,
    \<lparr> nChunkNumber = 21, hashChunk = 0x5aa5caac0ace9586c909da3dc7724d6670769f60a93f2ba3925bf7ce70a64993, nSize = 52428800 \<rparr>,
    \<lparr> nChunkNumber = 22, hashChunk = 0xdaab4c9149d510611b340f6738abb0017f6f26f3f195e7026e0fc11dc807ad7b, nSize = 52428800 \<rparr>,
    \<lparr> nChunkNumber = 23, hashChunk = 0x836d492c799d79d5f008247f16c8af62e73849fc0e5a264f455edcf305167de7, nSize = 52428800 \<rparr>,
    \<lparr> nChunkNumber = 24, hashChunk = 0x97814dae6056a18c7a776ae35445a7fcad4b06581f6987b7d2c4700bd9ff5243, nSize = 52428800 \<rparr>,
    \<lparr> nChunkNumber = 25, hashChunk = 0xc1f64f1b7c3f92ae9da0997ae9ddbfb3ad08ea55220054d626a25206a9404281, nSize = 52428800 \<rparr>,
    \<lparr> nChunkNumber = 26, hashChunk = 0x94d7cf482692251f012db6b12aa9bd7619f35f7d49c82108b07d7162110cb7b0, nSize = 52428800 \<rparr>,
    \<lparr> nChunkNumber = 27, hashChunk = 0x7c633ad18809ecc6ae6f106b69f9e0c1f41beacd5134eebdb676cf6d8aa1332c, nSize = 52428800 \<rparr>,
    \<lparr> nChunkNumber = 28, hashChunk = 0x792491c4e05898f2fff3cfc59e06d1c5b46ec057f1bc41a941c7101e6640df89, nSize = 52428800 \<rparr>,
    \<lparr> nChunkNumber = 29, hashChunk = 0x21c9578131d7309e280699cde2579055359a5332346ec905b57565d7056d7d95, nSize = 52428800 \<rparr>,
    \<lparr> nChunkNumber = 30, hashChunk = 0x1d3af3bd7366ddda8703cf6cbbaede45fb6e9dd710c1baf71a2c4ac22d1f4e04, nSize = 51624461 \<rparr>]"

definition GetHardcodedParamsManifest :: CSnapshotManifest where
  "GetHardcodedParamsManifest =
     \<lparr> nBlockHeight = 0, nTimestamp = 1760889827, nTotalSize = 1624488461,
       vChunks = GetHardcodedParamsManifest_chunks \<rparr>"

section \<open>Incrementing a loop counter below its bound does not wrap\<close>

lemma unat_succ_less:
  fixes i n :: "'a::len word"
  assumes "i < n"
  shows "unat (i + 1) = Suc (unat i)"
proof -
  have "unat i < unat n"
    using assms by (simp add: word_less_nat_alt)
  moreover have "unat n < 2 ^ LENGTH('a)"
    by (rule unsigned_less)
  ultimately have "unat i + 1 < 2 ^ LENGTH('a)"
    by linarith
  then show ?thesis
    by (simp add: unat_word_ariths)
qed

section \<open>Ordered maps (std::map)\<close>

text \<open>
  A \<open>std::map\<close> whose iteration order is observable is an association list with strictly
  ascending keys: \<open>map_find\<close> is \<open>find\<close>, \<open>map_assign\<close> is \<open>m[k] = v\<close> and \<open>map_erase\<close>
  is \<open>erase(k)\<close>.
\<close>

definition map_find :: "('k \<times> 'v) list \<Rightarrow> 'k \<Rightarrow> 'v option" where
  "map_find m k = map_of m k"

fun map_assign :: "('k::linorder \<times> 'v) list \<Rightarrow> 'k \<Rightarrow> 'v \<Rightarrow> ('k \<times> 'v) list" where
  "map_assign [] k v = [(k, v)]"
| "map_assign ((k', v') # m) k v =
     (if k < k' then (k, v) # (k', v') # m
      else if k = k' then (k, v) # m
      else (k', v') # map_assign m k v)"

fun map_erase :: "('k \<times> 'v) list \<Rightarrow> 'k \<Rightarrow> ('k \<times> 'v) list" where
  "map_erase [] k = []"
| "map_erase ((k', v') # m) k = (if k = k' then m else (k', v') # map_erase m k)"

section \<open>CSnapshotDownloadState\<close>

record CSnapshotDownloadState =
  mapChunksReceived :: "(uint32 \<times> bool) list"
  mapChunkRequests :: "(uint32 \<times> int) list"
  nTotalChunks :: uint32
  nDownloadStartTime :: int
  nLastProgressTime :: int
  nLastProgressCount :: uint32

text \<open>The constructor \<open>CSnapshotDownloadState(nTotalChunksIn)\<close>.\<close>

definition CSnapshotDownloadState_init :: "uint32 \<Rightarrow> CSnapshotDownloadState" where
  "CSnapshotDownloadState_init nTotalChunksIn =
     \<lparr> mapChunksReceived = [], mapChunkRequests = [], nTotalChunks = nTotalChunksIn,
       nDownloadStartTime = 0, nLastProgressTime = 0, nLastProgressCount = 0 \<rparr>"

definition IsChunkReceived :: "CSnapshotDownloadState \<Rightarrow> uint32 \<Rightarrow> bool" where
  "IsChunkReceived s nChunk =
     (case map_find (mapChunksReceived s) nChunk of None \<Rightarrow> False | Some b \<Rightarrow> b)"

text \<open>\<open>GetReceivedCount\<close>: a 32-bit counter incremented once per entry whose flag is set.\<close>

fun count_received :: "(uint32 \<times> bool) list \<Rightarrow> uint32 \<Rightarrow> uint32" where
  "count_received [] count = count"
| "count_received (pair # rest) count =
     count_received rest (if snd pair then count + 1 else count)"

definition GetReceivedCount :: "CSnapshotDownloadState \<Rightarrow> uint32" where
  "GetReceivedCount s = count_received (mapChunksReceived s) 0"

text \<open>
  \<open>IsComplete\<close> and \<open>GetNextChunkToRequest\<close> run the same loop
  \<open>for (uint32_t i = 0; i < nTotalChunks; i++)\<close> and leave it at the first chunk that has
  not been received.
\<close>

function IsComplete_loop :: "CSnapshotDownloadState \<Rightarrow> uint32 \<Rightarrow> bool" where
  "IsComplete_loop s i =
     (if i < nTotalChunks s
      then (if \<not> IsChunkReceived s i then False else IsComplete_loop s (i + 1))
      else True)"
  by pat_completeness auto
termination
proof (relation "measure (\<lambda>(s, i). unat (nTotalChunks s) - unat i)")
  show "wf (measure (\<lambda>(s, i). unat (nTotalChunks s) - unat i))"
    by simp
next
  fix s :: CSnapshotDownloadState and i :: uint32
  assume "i < nTotalChunks s"
  then have "unat i < unat (nTotalChunks s)"
    by (simp add: word_less_nat_alt)
  moreover have "unat (i + 1) = Suc (unat i)"
    using \<open>i < nTotalChunks s\<close> by (rule unat_succ_less)
  ultimately show "((s, i + 1), (s, i)) \<in> measure (\<lambda>(s, i). unat (nTotalChunks s) - unat i)"
    by simp
qed

declare IsComplete_loop.simps [simp del]

definition IsComplete :: "CSnapshotDownloadState \<Rightarrow> bool" where
  "IsComplete s = IsComplete_loop s 0"

function GetNextChunkToRequest_loop :: "CSnapshotDownloadState \<Rightarrow> uint32 \<Rightarrow> uint32" where
  "GetNextChunkToRequest_loop s i =
     (if i < nTotalChunks s
      then (if \<not> IsChunkReceived s i then i else GetNextChunkToRequest_loop s (i + 1))
      else nTotalChunks s)"
  by pat_completeness auto
termination
proof (relation "measure (\<lambda>(s, i). unat (nTotalChunks s) - unat i)")
  show "wf (measure (\<lambda>(s, i). unat (nTotalChunks s) - unat i))"
    by simp
next
  fix s :: CSnapshotDownloadState and i :: uint32
  assume "i < nTotalChunks s"
  then have "unat i < unat (nTotalChunks s)"
    by (simp add: word_less_nat_alt)
  moreover have "unat (i + 1) = Suc (unat i)"
    using \<open>i < nTotalChunks s\<close> by (rule unat_succ_less)
  ultimately show
    "((s, i + 1), (s, i)) \<in> measure (\<lambda>(s, i). unat (nTotalChunks s) - unat i)"
    by simp
qed

declare GetNextChunkToRequest_loop.simps [simp del]

definition GetNextChunkToRequest :: "CSnapshotDownloadState \<Rightarrow> uint32" where
  "GetNextChunkToRequest s = GetNextChunkToRequest_loop s 0"

text \<open>
  \<open>MarkChunkReceived\<close>. The argument \<open>nNow\<close> is the reading of \<open>GetTime()\<close>; the two
  readings the body takes are the same instant. Log output is not part of the state.
\<close>

definition MarkChunkReceived :: "CSnapshotDownloadState \<Rightarrow> int \<Rightarrow> uint32 \<Rightarrow> CSnapshotDownloadState" where
  "MarkChunkReceived s nNow nChunk =
     (if nChunk < nTotalChunks s then
        (let s1 = s\<lparr> mapChunksReceived := map_assign (mapChunksReceived s) nChunk True \<rparr>;
             s2 = (if nDownloadStartTime s1 = 0
                   then s1\<lparr> nDownloadStartTime := nNow, nLastProgressTime := nNow \<rparr>
                   else s1);
             nReceived = GetReceivedCount s2;
             bShouldLog = (nReceived mod 10 = 0 \<or> nNow - nLastProgressTime s2 \<ge> 30)
         in if bShouldLog \<and> nReceived > nLastProgressCount s2
            then s2\<lparr> nLastProgressTime := nNow, nLastProgressCount := nReceived \<rparr>
            else s2)
      else s)"

definition RecordChunkRequest :: "CSnapshotDownloadState \<Rightarrow> uint32 \<Rightarrow> int \<Rightarrow> CSnapshotDownloadState" where
  "RecordChunkRequest s nChunk nTime =
     s\<lparr> mapChunkRequests := map_assign (mapChunkRequests s) nChunk nTime \<rparr>"

definition HasRecentRequest :: "CSnapshotDownloadState \<Rightarrow> uint32 \<Rightarrow> int \<Rightarrow> bool" where
  "HasRecentRequest s nChunk nNow =
     (case map_find (mapChunkRequests s) nChunk of
        None \<Rightarrow> False
      | Some t \<Rightarrow> nNow - t < 60)"

text \<open>The calls that change a download state, and a sequence of them run from a state.\<close>

datatype ds_call = MarkReceived int uint32 | RecordRequested uint32 int

fun ds_step :: "CSnapshotDownloadState \<Rightarrow> ds_call \<Rightarrow> CSnapshotDownloadState" where
  "ds_step s (MarkReceived nNow nChunk) = MarkChunkReceived s nNow nChunk"
| "ds_step s (RecordRequested nChunk nTime) = RecordChunkRequest s nChunk nTime"

definition ds_run :: "CSnapshotDownloadState \<Rightarrow> ds_call list \<Rightarrow> CSnapshotDownloadState" where
  "ds_run s calls = foldl ds_step s calls"

text \<open>
  The invariant of the received map: keys strictly ascending (the representation of a
  \<open>std::map\<close>) and every key below the total.
\<close>

definition ds_inv :: "CSnapshotDownloadState \<Rightarrow> bool" where
  "ds_inv s =
     (sorted_wrt (<) (map fst (mapChunksReceived s))
      \<and> list_all (\<lambda>p. fst p < nTotalChunks s) (mapChunksReceived s))"

text \<open>A sample download of three chunks, with one out-of-range chunk number.\<close>

definition example_download_calls :: "ds_call list" where
  "example_download_calls =
     [MarkReceived 100 0, MarkReceived 101 2, MarkReceived 101 5,
      RecordRequested 1 102, MarkReceived 130 1]"

section \<open>CSnapshotStore\<close>

text \<open>
  The hash class \<open>CSHA256\<close> is not among these sources, so the store operations take the
  hash as a parameter \<open>sha256\<close>: the digest bytes of a byte string in output order
  (\<open>Finalize\<close> writes 32 of them). \<open>uint256_of_bytes\<close> reads a byte array as the blob
  whose byte \<open>i\<close> is element \<open>i\<close>.
\<close>

fun uint256_of_bytes :: "uint8 list \<Rightarrow> uint256" where
  "uint256_of_bytes [] = 0"
| "uint256_of_bytes (b # bs) = ucast b + 256 * uint256_of_bytes bs"

text \<open>The loop \<open>for (int i = 0; i < 32; i++) *(hash.begin() + i) = hashBytes[31 - i]\<close>.\<close>

definition reversed_hash :: "uint8 list \<Rightarrow> uint256" where
  "reversed_hash hashBytes = uint256_of_bytes (map (\<lambda>i. hashBytes ! (31 - i)) [0 ..< 32])"

record CSnapshotStore =
  pathSnapshotDir :: string
  manifest :: CSnapshotManifest

definition VerifyChunk ::
  "(uint8 list \<Rightarrow> uint8 list) \<Rightarrow> CSnapshotStore \<Rightarrow> uint32 \<Rightarrow> uint8 list \<Rightarrow> bool" where
  "VerifyChunk sha256 st nChunk vData =
     (if unat nChunk \<ge> length (vChunks (manifest st)) then False
      else
        (let info = vChunks (manifest st) ! unat nChunk
         in if length vData \<noteq> unat (nSize info) then False
            else if reversed_hash (sha256 vData) \<noteq> hashChunk info then False
            else True))"

text \<open>
  The file of chunk \<open>n\<close> is \<open>pathSnapshotDir / ("chunk-" + strprintf("%03d", n) + ".dat")\<close>:
  the decimal digits of the number, padded with zeros to three.
\<close>

function decimal :: "nat \<Rightarrow> string" where
  "decimal n = (if n < 10 then [char_of (48 + n)] else decimal (n div 10) @ [char_of (48 + n mod 10)])"
  by pat_completeness auto
termination
  by (relation "measure id") auto

declare decimal.simps [simp del]

definition strprintf_03d :: "nat \<Rightarrow> string" where
  "strprintf_03d n = replicate (3 - length (decimal n)) (CHR ''0'') @ decimal n"

definition chunkPath :: "CSnapshotStore \<Rightarrow> uint32 \<Rightarrow> string" where
  "chunkPath st nChunk =
     pathSnapshotDir st @ ''/'' @ ''chunk-'' @ strprintf_03d (unat nChunk) @ ''.dat''"

text \<open>
  The file system maps a path to the bytes of the file there. What the operating system
  does with one attempt to create and fill a file is an input of \<open>SaveChunk\<close>:
  the stream fails to open (\<open>!file\<close>); an exception is raised before the file exists; all
  bytes are written; the stream goes bad after \<open>k\<close> bytes (the stream has no exception mask,
  so \<open>write\<close> and \<open>close\<close> return normally and \<open>true\<close> is returned); or the file was
  created, \<open>k\<close> bytes reached it and an exception left the \<open>try\<close> block before
  \<open>return true\<close>, so that the handler returns \<open>false\<close>.
\<close>

type_synonym filesystem = "string \<rightharpoonup> uint8 list"

datatype write_outcome =
    OpenFails
  | ThrowsBeforeOpen
  | WriteCompletes
  | StreamFailsAfter nat
  | ThrowsAfter nat

definition SaveChunk ::
  "(uint8 list \<Rightarrow> uint8 list) \<Rightarrow> CSnapshotStore \<Rightarrow> filesystem \<Rightarrow> write_outcome
     \<Rightarrow> uint32 \<Rightarrow> uint8 list \<Rightarrow> bool \<times> filesystem" where
  "SaveChunk sha256 st fs io nChunk vData =
     (if nChunk \<ge> GetChunkCount (manifest st) then (False, fs)
      else if \<not> VerifyChunk sha256 st nChunk vData then (False, fs)
      else
        (case io of
           ThrowsBeforeOpen \<Rightarrow> (False, fs)
         | OpenFails \<Rightarrow> (False, fs)
         | WriteCompletes \<Rightarrow> (True, fs(chunkPath st nChunk \<mapsto> vData))
         | StreamFailsAfter k \<Rightarrow> (True, fs(chunkPath st nChunk \<mapsto> take k vData))
         | ThrowsAfter k \<Rightarrow> (False, fs(chunkPath st nChunk \<mapsto> take k vData))))"

text \<open>
  \<open>LoadChunk\<close> reads the whole file of a chunk of the manifest, if there is one
  (read errors are not modelled).
\<close>

definition LoadChunk :: "CSnapshotStore \<Rightarrow> filesystem \<Rightarrow> uint32 \<Rightarrow> uint8 list option" where
  "LoadChunk st fs nChunk =
     (if nChunk \<ge> GetChunkCount (manifest st) then None else fs (chunkPath st nChunk))"

definition HasChunk :: "CSnapshotStore \<Rightarrow> filesystem \<Rightarrow> uint32 \<Rightarrow> bool" where
  "HasChunk st fs nChunk =
     (if nChunk \<ge> GetChunkCount (manifest st) then False
      else fs (chunkPath st nChunk) \<noteq> None)"

text \<open>
  A store with a one-chunk manifest for a two-byte chunk, and a stand-in for the hash
  parameter whose 32 output bytes count up from the length of the input.
\<close>

definition counting_hash :: "uint8 list \<Rightarrow> uint8 list" where
  "counting_hash d = map (\<lambda>i. of_nat (length d + i)) [0 ..< 32]"

definition example_store :: CSnapshotStore where
  "example_store =
     \<lparr> pathSnapshotDir = ''snapshots/7'',
       manifest =
         \<lparr> nBlockHeight = 7, nTimestamp = 0, nTotalSize = 2,
           vChunks =
             [\<lparr> nChunkNumber = 0,
                hashChunk = 0x02030405060708090a0b0c0d0e0f101112131415161718191a1b1c1d1e1f2021,
                nSize = 2 \<rparr>] \<rparr> \<rparr>"

section \<open>CSnapshotRateLimiter\<close>

record PeerRequestInfo =
  requestTimes :: "int list"
  servedChunks :: "uint32 \<rightharpoonup> int"
  nLastRequestTime :: int
  nTotalRequests :: uint32
  bIsBanned :: bool
  nBanUntil :: int

definition PeerRequestInfo_init :: PeerRequestInfo where
  "PeerRequestInfo_init =
     \<lparr> requestTimes = [], servedChunks = Map.empty, nLastRequestTime = 0,
       nTotalRequests = 0, bIsBanned = False, nBanUntil = 0 \<rparr>"

text \<open>
  The limiter, for any type \<open>'a\<close> of peer addresses. The byte counter is a 64-bit word (the
  source adds unsigned byte counts to an \<open>int64_t\<close>).
\<close>

record 'a CSnapshotRateLimiter =
  mapPeerRequests :: "'a \<rightharpoonup> PeerRequestInfo"
  nActiveTransfers :: uint32
  nTotalBytesServed :: uint64
  nLastResetTime :: int
  nMaxChunksPerPeerPerMinute :: uint32
  nMaxConcurrentTransfers :: uint32
  nMinSecondsBetweenRequests :: uint32
  nDuplicateChunkWindowSec :: uint32
  nBanThreshold :: uint32
  nBanDurationSec :: uint32

text \<open>The constructor; \<open>nNow\<close> is the reading of \<open>GetTime()\<close>.\<close>

definition CSnapshotRateLimiter_init :: "int \<Rightarrow> 'a CSnapshotRateLimiter" where
  "CSnapshotRateLimiter_init nNow =
     \<lparr> mapPeerRequests = Map.empty, nActiveTransfers = 0, nTotalBytesServed = 0,
       nLastResetTime = nNow,
       nMaxChunksPerPeerPerMinute = 30, nMaxConcurrentTransfers = 25,
       nMinSecondsBetweenRequests = 2, nDuplicateChunkWindowSec = 300,
       nBanThreshold = 100, nBanDurationSec = 300 \<rparr>"

text \<open>\<open>mapPeerRequests[addr]\<close>: the entry of a peer, default-constructed when absent.\<close>

definition peer_entry :: "('a \<rightharpoonup> PeerRequestInfo) \<Rightarrow> 'a \<Rightarrow> PeerRequestInfo" where
  "peer_entry m addr = (case m addr of None \<Rightarrow> PeerRequestInfo_init | Some info \<Rightarrow> info)"

text \<open>
  The loop \<open>while (!requestTimes.empty() && (nNow - requestTimes.front()) > 60) pop_front()\<close>.
\<close>

fun drop_old :: "int \<Rightarrow> int list \<Rightarrow> int list" where
  "drop_old nNow [] = []"
| "drop_old nNow (front # rest) =
     (if nNow - front > 60 then drop_old nNow rest else front # rest)"

datatype reject_reason = PeerBanned | ServerAtCapacity | TooFast | AlreadyServed | RateLimit

datatype admission = Admitted | Rejected reject_reason

text \<open>
  \<open>AllowRequest\<close>. The entry \<open>info\<close> is a reference into the map, so every change made
  to it before a return stays in the map; \<open>put\<close> writes the entry back.
\<close>

definition AllowRequest ::
  "'a CSnapshotRateLimiter \<Rightarrow> int \<Rightarrow> 'a \<Rightarrow> uint32 \<Rightarrow> admission \<times> 'a CSnapshotRateLimiter" where
  "AllowRequest s nNow addr nChunk =
     (let info0 = peer_entry (mapPeerRequests s) addr;
          put = (\<lambda>info. s\<lparr> mapPeerRequests := (mapPeerRequests s)(addr \<mapsto> info) \<rparr>)
      in
      if bIsBanned info0 \<and> nNow < nBanUntil info0 then (Rejected PeerBanned, put info0)
      else
        (let info1 = (if bIsBanned info0
                      then info0\<lparr> bIsBanned := False, nBanUntil := 0, requestTimes := [] \<rparr>
                      else info0)
         in
         if nActiveTransfers s \<ge> nMaxConcurrentTransfers s
         then (Rejected ServerAtCapacity, put info1)
         else if nLastRequestTime info1 > 0
                 \<and> nNow - nLastRequestTime info1 < uint (nMinSecondsBetweenRequests s)
         then (Rejected TooFast, put info1)
         else if (case servedChunks info1 nChunk of
                    None \<Rightarrow> False
                  | Some served \<Rightarrow> nNow - served < uint (nDuplicateChunkWindowSec s))
         then (Rejected AlreadyServed, put info1)
         else
           (let info2 = info1\<lparr> requestTimes := drop_old nNow (requestTimes info1) \<rparr>
            in
            if length (requestTimes info2) \<ge> unat (nMaxChunksPerPeerPerMinute s)
            then
              (Rejected RateLimit,
               put (if length (requestTimes info2) \<ge> unat (nBanThreshold s)
                    then info2\<lparr> bIsBanned := True,
                               nBanUntil := nNow + uint (nBanDurationSec s) \<rparr>
                    else info2))
            else
              (Admitted,
               s\<lparr> mapPeerRequests := (mapPeerRequests s)(addr \<mapsto>
                      info2\<lparr> requestTimes := requestTimes info2 @ [nNow],
                             nLastRequestTime := nNow,
                             nTotalRequests := nTotalRequests info2 + 1 \<rparr>),
                   nActiveTransfers := nActiveTransfers s + 1 \<rparr>))))"

definition RecordServed ::
  "'a CSnapshotRateLimiter \<Rightarrow> int \<Rightarrow> 'a \<Rightarrow> uint32 \<Rightarrow> uint64 \<Rightarrow> 'a CSnapshotRateLimiter" where
  "RecordServed s nNow addr nChunk nBytes =
     (let info = peer_entry (mapPeerRequests s) addr
      in s\<lparr> mapPeerRequests := (mapPeerRequests s)(addr \<mapsto>
                info\<lparr> servedChunks := (servedChunks info)(nChunk \<mapsto> nNow) \<rparr>),
             nTotalBytesServed := nTotalBytesServed s + nBytes \<rparr>)"

definition CompleteTransfer :: "'a CSnapshotRateLimiter \<Rightarrow> 'a CSnapshotRateLimiter" where
  "CompleteTransfer s =
     (if nActiveTransfers s > 0 then s\<lparr> nActiveTransfers := nActiveTransfers s - 1 \<rparr> else s)"

definition IsBanned :: "'a CSnapshotRateLimiter \<Rightarrow> int \<Rightarrow> 'a \<Rightarrow> bool" where
  "IsBanned s nNow addr =
     (case mapPeerRequests s addr of
        None \<Rightarrow> False
      | Some info \<Rightarrow> bIsBanned info \<and> nNow < nBanUntil info)"

definition Cleanup :: "'a CSnapshotRateLimiter \<Rightarrow> int \<Rightarrow> 'a CSnapshotRateLimiter" where
  "Cleanup s nNow =
     (let s1 = s\<lparr> mapPeerRequests :=
                 (\<lambda>addr. case mapPeerRequests s addr of
                     None \<Rightarrow> None
                   | Some info \<Rightarrow>
                       if nNow - nLastRequestTime info > 600 \<and> \<not> bIsBanned info
                       then None else Some info) \<rparr>
      in if nNow - nLastResetTime s1 > 3600
         then s1\<lparr> nTotalBytesServed := 0, nLastResetTime := nNow \<rparr>
         else s1)"

definition SetLimits ::
  "'a CSnapshotRateLimiter \<Rightarrow> uint32 \<Rightarrow> uint32 \<Rightarrow> uint32 \<Rightarrow> 'a CSnapshotRateLimiter" where
  "SetLimits s maxChunksPerMin maxConcurrent minSecBetween =
     s\<lparr> nMaxChunksPerPeerPerMinute := maxChunksPerMin,
        nMaxConcurrentTransfers := maxConcurrent,
        nMinSecondsBetweenRequests := minSecBetween \<rparr>"

text \<open>
  A serving history: calls of the limiter, each with the clock reading it takes.
  \<open>rl_step\<close> performs one call and reports the admission decision of an \<open>AllowRequest\<close>;
  \<open>rl_run\<close> performs a list of calls and returns the decisions with the final state.
\<close>

datatype 'a rl_call =
    CallAllowRequest 'a uint32
  | CallRecordServed 'a uint32 uint64
  | CallCompleteTransfer
  | CallCleanup

fun rl_step ::
  "'a CSnapshotRateLimiter \<Rightarrow> int \<times> 'a rl_call \<Rightarrow> admission option \<times> 'a CSnapshotRateLimiter" where
  "rl_step s (nNow, CallAllowRequest addr nChunk) =
     (case AllowRequest s nNow addr nChunk of (r, s') \<Rightarrow> (Some r, s'))"
| "rl_step s (nNow, CallRecordServed addr nChunk nBytes) =
     (None, RecordServed s nNow addr nChunk nBytes)"
| "rl_step s (nNow, CallCompleteTransfer) = (None, CompleteTransfer s)"
| "rl_step s (nNow, CallCleanup) = (None, Cleanup s nNow)"

fun rl_run ::
  "'a CSnapshotRateLimiter \<Rightarrow> (int \<times> 'a rl_call) list
     \<Rightarrow> admission option list \<times> 'a CSnapshotRateLimiter" where
  "rl_run s [] = ([], s)"
| "rl_run s (c # cs) =
     (case rl_step s c of (r, s') \<Rightarrow> (case rl_run s' cs of (rs, s'') \<Rightarrow> (r # rs, s'')))"

text \<open>The clock readings at which the requests of peer \<open>addr\<close> were admitted during a run.\<close>

fun admitted_times ::
  "'a \<Rightarrow> 'a CSnapshotRateLimiter \<Rightarrow> (int \<times> 'a rl_call) list \<Rightarrow> int list" where
  "admitted_times addr s [] = []"
| "admitted_times addr s ((nNow, c) # cs) =
     (case rl_step s (nNow, c) of
        (r, s') \<Rightarrow>
          (case c of
             CallAllowRequest addr' nChunk \<Rightarrow>
               (if addr' = addr \<and> r = Some Admitted then [nNow] else [])
           | _ \<Rightarrow> [])
          @ admitted_times addr s' cs)"

text \<open>The six limits of a limiter, and the bound on the counter of active transfers.\<close>

definition rl_limits :: "'a CSnapshotRateLimiter \<Rightarrow> uint32 \<times> uint32 \<times> uint32 \<times> uint32 \<times> uint32 \<times> uint32" where
  "rl_limits s =
     (nMaxChunksPerPeerPerMinute s, nMaxConcurrentTransfers s, nMinSecondsBetweenRequests s,
      nDuplicateChunkWindowSec s, nBanThreshold s, nBanDurationSec s)"

definition active_ok :: "'a CSnapshotRateLimiter \<Rightarrow> bool" where
  "active_ok s = (nActiveTransfers s \<le> nMaxConcurrentTransfers s)"

text \<open>Twenty-six peers, each sending one request at the same second.\<close>

definition capacity_calls :: "(int \<times> nat rl_call) list" where
  "capacity_calls = map (\<lambda>i. (1000, CallAllowRequest i 0)) [0 ..< 26]"

text \<open>No peer of the limiter is banned, and no window is longer than the per-minute limit.\<close>

definition never_banned :: "'a CSnapshotRateLimiter \<Rightarrow> bool" where
  "never_banned s =
     (\<forall>addr info. mapPeerRequests s addr = Some info \<longrightarrow>
        \<not> bIsBanned info \<and> nBanUntil info = 0
        \<and> length (requestTimes info) \<le> unat (nMaxChunksPerPeerPerMinute s))"

text \<open>
  A single peer sending 150 requests between second 1000 and second 1060: the first
  thirty two seconds apart, each followed by the completion of its transfer
  (\<open>s3_spaced\<close>), the others at second 1060 (\<open>s3_burst\<close>). \<open>s3_state n\<close> is the limiter
  after the first \<open>n\<close> spaced requests.
\<close>

definition s3_spaced :: "nat \<Rightarrow> (int \<times> nat rl_call) list" where
  "s3_spaced n =
     concat (map (\<lambda>i. [(1000 + 2 * int i, CallAllowRequest 7 (of_nat i)),
                        (1000 + 2 * int i, CallCompleteTransfer)]) [0 ..< n])"

definition s3_burst :: "nat \<Rightarrow> nat \<Rightarrow> (int \<times> nat rl_call) list" where
  "s3_burst a b = map (\<lambda>i. (1060, CallAllowRequest 7 (of_nat i))) [a ..< b]"

definition s3_calls :: "(int \<times> nat rl_call) list" where
  "s3_calls = s3_spaced 30 @ s3_burst 30 150"

definition s3_entry :: "nat \<Rightarrow> PeerRequestInfo" where
  "s3_entry n =
     \<lparr> requestTimes = map (\<lambda>j. 1000 + 2 * int j) [0 ..< n], servedChunks = Map.empty,
       nLastRequestTime = (if n = 0 then 0 else 998 + 2 * int n),
       nTotalRequests = of_nat n, bIsBanned = False, nBanUntil = 0 \<rparr>"

definition s3_state :: "nat \<Rightarrow> nat CSnapshotRateLimiter" where
  "s3_state n =
     (CSnapshotRateLimiter_init 1000)
       \<lparr> mapPeerRequests := (if n = 0 then Map.empty else [7 \<mapsto> s3_entry n]) \<rparr>"

text \<open>
  The two changes \<open>AllowRequest\<close> makes to an entry before it decides: lifting a ban
  (\<open>unbanned\<close>) and dropping the old readings from the window (\<open>trimmed\<close>). The invariant
  \<open>entry_inv info H T M\<close> relates the entry of a peer to the readings \<open>H\<close> at which its
  requests were admitted so far, where \<open>T\<close> is the latest clock reading and \<open>M\<close> the limit:
  the window is ascending and not later than \<open>T\<close> and the last request, a banned peer's
  window ends more than 60 seconds before the end of the ban, the window holds every
  admission that can still be within 60 seconds of a future reading, and no span of 60
  seconds holds more than \<open>M\<close> admissions.
\<close>

definition unbanned :: "PeerRequestInfo \<Rightarrow> PeerRequestInfo" where
  "unbanned info =
     (if bIsBanned info
      then info\<lparr> bIsBanned := False, nBanUntil := 0, requestTimes := [] \<rparr> else info)"

definition trimmed :: "int \<Rightarrow> PeerRequestInfo \<Rightarrow> PeerRequestInfo" where
  "trimmed nNow info = info\<lparr> requestTimes := drop_old nNow (requestTimes info) \<rparr>"

definition recent :: "int \<Rightarrow> int list \<Rightarrow> int list" where
  "recent T L = filter (\<lambda>x. T - 60 \<le> x) L"

definition in_window :: "int \<Rightarrow> int list \<Rightarrow> int list" where
  "in_window t H = filter (\<lambda>x. t \<le> x \<and> x \<le> t + 60) H"

definition entry_inv :: "PeerRequestInfo \<Rightarrow> int list \<Rightarrow> int \<Rightarrow> nat \<Rightarrow> bool" where
  "entry_inv info H T M =
     (sorted (requestTimes info)
      \<and> (\<forall>x \<in> set (requestTimes info). x \<le> T \<and> x \<le> nLastRequestTime info)
      \<and> (bIsBanned info \<longrightarrow> (\<forall>x \<in> set (requestTimes info). x + 60 < nBanUntil info))
      \<and> (\<forall>T'. T \<le> T' \<longrightarrow> length (recent T' H) \<le> length (recent T' (requestTimes info)))
      \<and> (\<forall>t. length (in_window t H) \<le> M))"

section \<open>CSnapshotDownloadCoordinator\<close>

type_synonym NodeId = int

text \<open>
  The per-peer record of the coordinator. Its field \<open>nLastRequestTime\<close> is written
  \<open>dl_nLastRequestTime\<close> here, the name being taken by the limiter's record.
\<close>

record PeerDownloadState =
  dl_nLastRequestTime :: int
  nChunksRequested :: uint32
  nChunksFailed :: uint32
  nConsecutiveFailures :: uint32
  nBackoffUntil :: int

definition PeerDownloadState_init :: PeerDownloadState where
  "PeerDownloadState_init =
     \<lparr> dl_nLastRequestTime = 0, nChunksRequested = 0, nChunksFailed = 0,
       nConsecutiveFailures = 0, nBackoffUntil = 0 \<rparr>"

text \<open>
  The in-flight map \<open>mapChunkToNode\<close> is iterated by \<open>GetTimedOutRequests\<close>, so it is an
  ordered map; \<open>mapPeerStates\<close> is only looked up.
\<close>

record CSnapshotDownloadCoordinator =
  mapPeerStates :: "NodeId \<rightharpoonup> PeerDownloadState"
  mapChunkToNode :: "(uint32 \<times> NodeId) list"

definition CSnapshotDownloadCoordinator_init :: CSnapshotDownloadCoordinator where
  "CSnapshotDownloadCoordinator_init = \<lparr> mapPeerStates = Map.empty, mapChunkToNode = [] \<rparr>"

definition REQUEST_TIMEOUT_SEC :: uint32 where
  "REQUEST_TIMEOUT_SEC = 60"

text \<open>\<open>mapPeerStates[node]\<close>: the state of a peer, default-constructed when absent.\<close>

definition peer_state :: "(NodeId \<rightharpoonup> PeerDownloadState) \<Rightarrow> NodeId \<Rightarrow> PeerDownloadState" where
  "peer_state m node = (case m node of None \<Rightarrow> PeerDownloadState_init | Some st \<Rightarrow> st)"

definition RecordRequest ::
  "CSnapshotDownloadCoordinator \<Rightarrow> int \<Rightarrow> NodeId \<Rightarrow> uint32 \<Rightarrow> CSnapshotDownloadCoordinator" where
  "RecordRequest c nNow node nChunk =
     (let state = peer_state (mapPeerStates c) node
      in c\<lparr> mapPeerStates := (mapPeerStates c)(node \<mapsto>
                state\<lparr> dl_nLastRequestTime := nNow,
                       nChunksRequested := nChunksRequested state + 1 \<rparr>),
             mapChunkToNode := map_assign (mapChunkToNode c) nChunk node \<rparr>)"

definition RecordSuccess ::
  "CSnapshotDownloadCoordinator \<Rightarrow> NodeId \<Rightarrow> uint32 \<Rightarrow> CSnapshotDownloadCoordinator" where
  "RecordSuccess c node nChunk =
     (let state = peer_state (mapPeerStates c) node
      in c\<lparr> mapPeerStates := (mapPeerStates c)(node \<mapsto>
                state\<lparr> nConsecutiveFailures := 0, nBackoffUntil := 0 \<rparr>),
             mapChunkToNode := map_erase (mapChunkToNode c) nChunk \<rparr>)"

definition RecordFailure ::
  "CSnapshotDownloadCoordinator \<Rightarrow> int \<Rightarrow> NodeId \<Rightarrow> uint32 \<Rightarrow> CSnapshotDownloadCoordinator" where
  "RecordFailure c nNow node nChunk =
     (let state0 = peer_state (mapPeerStates c) node;
          state = state0\<lparr> nChunksFailed := nChunksFailed state0 + 1,
                          nConsecutiveFailures := nConsecutiveFailures state0 + 1 \<rparr>;
          backoffTime = (if nConsecutiveFailures state \<ge> 4 then 300
                         else if nConsecutiveFailures state = 3 then 60
                         else if nConsecutiveFailures state = 2 then 30
                         else 10 :: uint32)
      in c\<lparr> mapPeerStates := (mapPeerStates c)(node \<mapsto>
                state\<lparr> nBackoffUntil := nNow + uint backoffTime \<rparr>),
             mapChunkToNode := map_erase (mapChunkToNode c) nChunk \<rparr>)"

text \<open>
  The loop of \<open>GetTimedOutRequests\<close> over the in-flight map, in key order: an entry whose
  peer has a state with \<open>nNow - nLastRequestTime > REQUEST_TIMEOUT_SEC\<close> is appended to
  \<open>vTimedOut\<close> and erased; every other entry stays. The result is \<open>vTimedOut\<close> and the
  entries that stay.
\<close>

fun reap_loop ::
  "(NodeId \<rightharpoonup> PeerDownloadState) \<Rightarrow> int \<Rightarrow> (uint32 \<times> NodeId) list
     \<Rightarrow> (NodeId \<times> uint32) list \<times> (uint32 \<times> NodeId) list" where
  "reap_loop states nNow [] = ([], [])"
| "reap_loop states nNow ((nChunk, node) # rest) =
     (case reap_loop states nNow rest of
        (vTimedOut, kept) \<Rightarrow>
          (case states node of
             None \<Rightarrow> (vTimedOut, (nChunk, node) # kept)
           | Some st \<Rightarrow>
               if nNow - dl_nLastRequestTime st > uint REQUEST_TIMEOUT_SEC
               then ((node, nChunk) # vTimedOut, kept)
               else (vTimedOut, (nChunk, node) # kept)))"

definition GetTimedOutRequests ::
  "CSnapshotDownloadCoordinator \<Rightarrow> int
     \<Rightarrow> (NodeId \<times> uint32) list \<times> CSnapshotDownloadCoordinator" where
  "GetTimedOutRequests c nNow =
     (case reap_loop (mapPeerStates c) nNow (mapChunkToNode c) of
        (vTimedOut, kept) \<Rightarrow> (vTimedOut, c\<lparr> mapChunkToNode := kept \<rparr>))"

definition RemovePeer :: "CSnapshotDownloadCoordinator \<Rightarrow> NodeId \<Rightarrow> CSnapshotDownloadCoordinator" where
  "RemovePeer c node =
     c\<lparr> mapPeerStates := (mapPeerStates c)(node := None),
        mapChunkToNode := filter (\<lambda>(nChunk, n). n \<noteq> node) (mapChunkToNode c) \<rparr>"

text \<open>
  A history of requests: each \<open>RecordRequest\<close> call with its clock reading. \<open>request_time\<close>
  is the reading at which the request now in flight for a chunk was recorded (the latest
  one for that chunk), and \<open>spec_timed_out\<close> is what the specification asks of
  \<open>GetTimedOutRequests\<close>: the in-flight pairs whose own request is older than the timeout.
\<close>

fun record_requests ::
  "CSnapshotDownloadCoordinator \<Rightarrow> (int \<times> NodeId \<times> uint32) list \<Rightarrow> CSnapshotDownloadCoordinator" where
  "record_requests c [] = c"
| "record_requests c ((nNow, node, nChunk) # rest) =
     record_requests (RecordRequest c nNow node nChunk) rest"

fun request_time :: "(int \<times> NodeId \<times> uint32) list \<Rightarrow> uint32 \<Rightarrow> int option" where
  "request_time [] nChunk = None"
| "request_time ((nNow, node, nChunk') # rest) nChunk =
     (case request_time rest nChunk of
        Some later \<Rightarrow> Some later
      | None \<Rightarrow> if nChunk' = nChunk then Some nNow else None)"

definition spec_timed_out ::
  "(int \<times> NodeId \<times> uint32) list \<Rightarrow> int \<Rightarrow> (NodeId \<times> uint32) list" where
  "spec_timed_out history nNow =
     map (\<lambda>(nChunk, node). (node, nChunk))
       (filter (\<lambda>(nChunk, node).
            case request_time history nChunk of
              None \<Rightarrow> False
            | Some recorded \<Rightarrow> nNow - recorded > uint REQUEST_TIMEOUT_SEC)
          (mapChunkToNode (record_requests CSnapshotDownloadCoordinator_init history)))"

text \<open>Peer 7 is asked for chunk 1 at second 1000 and for chunk 2 at second 1050.\<close>

definition two_requests :: "(int \<times> NodeId \<times> uint32) list" where
  "two_requests = [(1000, 7, 1), (1050, 7, 2)]"

section \<open>UTXO-set hash verification\<close>

text \<open>
  Modelled from the spec: the checkpoint type \<open>CSnapshotCheckpoint\<close> (declared in
  chainparams.h, which is not among these sources) with the four fields of the
  specification's checkpoint tuple (height, block hash, UTXO hash, transaction count), under
  the names the source uses for the three it reads.
\<close>

record CSnapshotCheckpoint =
  nHeight :: int
  hashBlock :: uint256
  hashUTXOSet :: uint256
  nChainTx :: uint64

text \<open>
  Modelled from the spec: the statistics \<open>CCoinsStats\<close> that \<open>GetStats\<close> fills in (declared
  in coins.h, which is not among these sources), with the fields \<open>CalculateUTXOSetHash\<close>
  reads; \<open>stats_nHeight\<close> and \<open>stats_hashBlock\<close> are its \<open>nHeight\<close> and \<open>hashBlock\<close>.
\<close>

record CCoinsStats =
  stats_nHeight :: int
  stats_hashBlock :: uint256
  nTransactions :: uint64
  nTransactionOutputs :: uint64
  hashSerialized :: uint256
  nTotalAmount :: int

text \<open>
  The coins database is an input: \<open>pcoinsTip\<close> is \<open>None\<close> for the null pointer, and
  otherwise holds what \<open>GetStats\<close> would yield, \<open>None\<close> when it returns false. The calls
  made to the validation engine are returned with the result.
\<close>

datatype engine_call = Call_FlushStateToDisk | Call_GetStats

definition CalculateUTXOSetHash ::
  "CCoinsStats option option \<Rightarrow> uint256 \<Rightarrow> uint256 \<times> engine_call list" where
  "CalculateUTXOSetHash pcoinsTip blockHash =
     (case pcoinsTip of
        None \<Rightarrow> (0, [])
      | Some view \<Rightarrow>
          (case view of
             None \<Rightarrow> (0, [Call_FlushStateToDisk, Call_GetStats])
           | Some stats \<Rightarrow> (hashSerialized stats, [Call_FlushStateToDisk, Call_GetStats])))"

definition VerifySnapshotUTXOHash ::
  "CSnapshotCheckpoint list \<Rightarrow> CCoinsStats option option \<Rightarrow> uint256 \<Rightarrow> int
     \<Rightarrow> bool \<times> engine_call list" where
  "VerifySnapshotUTXOHash checkpoints pcoinsTip blockHash nHeightIn =
     (if checkpoints = [] then (True, [])
      else
        (case find (\<lambda>checkpoint. nHeight checkpoint = nHeightIn
                                   \<and> hashBlock checkpoint = blockHash) checkpoints of
           None \<Rightarrow> (True, [])
         | Some pCheckpoint \<Rightarrow>
             if hashUTXOSet pCheckpoint = 0 then (True, [])
             else
               (case CalculateUTXOSetHash pcoinsTip blockHash of
                  (actualUTXOHash, calls) \<Rightarrow>
                    if actualUTXOHash \<noteq> hashUTXOSet pCheckpoint then (False, calls)
                    else (True, calls))))"

text \<open>
  A checkpoint with a UTXO hash, and statistics whose serialized hash equals it while
  their tip is another block.
\<close>

definition example_checkpoint :: CSnapshotCheckpoint where
  "example_checkpoint = \<lparr> nHeight = 100, hashBlock = 0xAA, hashUTXOSet = 0xBB, nChainTx = 5 \<rparr>"

definition other_tip_stats :: CCoinsStats where
  "other_tip_stats =
     \<lparr> stats_nHeight = 99, stats_hashBlock = 0xCC, nTransactions = 5,
       nTransactionOutputs = 9, hashSerialized = 0xBB, nTotalAmount = 1 \<rparr>"

section \<open>Manifest validity\<close>

lemma IsValid_loop_iff:
  "IsValid_loop cs i = (\<forall>j. i \<le> j \<and> j < length cs \<longrightarrow> unat (nChunkNumber (cs ! j)) = j)"
proof (induction cs i rule: IsValid_loop.induct)
  case (1 cs i)
  show ?case
  proof (cases "i < length cs")
    case False
    then show ?thesis by (simp add: IsValid_loop.simps [of cs i])
  next
    case True
    show ?thesis
    proof (cases "unat (nChunkNumber (cs ! i)) = i")
      case False
      with True show ?thesis
        by (auto simp: IsValid_loop.simps [of cs i])
    next
      case here: True
      have "IsValid_loop cs i = IsValid_loop cs (Suc i)"
        using True here by (simp add: IsValid_loop.simps [of cs i])
      also have "\<dots> = (\<forall>j. Suc i \<le> j \<and> j < length cs \<longrightarrow> unat (nChunkNumber (cs ! j)) = j)"
        using 1 True here by simp
      also have "\<dots> = (\<forall>j. i \<le> j \<and> j < length cs \<longrightarrow> unat (nChunkNumber (cs ! j)) = j)"
        using here by (metis Suc_leI le_neq_implies_less Suc_leD)
      finally show ?thesis .
    qed
  qed
qed

lemma IsValid_loop_numbers:
  "IsValid_loop cs 0 = (map (\<lambda>c. unat (nChunkNumber c)) cs = [0 ..< length cs])"
proof -
  have "(map (\<lambda>c. unat (nChunkNumber c)) cs = [0 ..< length cs])
        = (\<forall>j < length cs. unat (nChunkNumber (cs ! j)) = j)"
    by (subst list_eq_iff_nth_eq) simp
  then show ?thesis by (simp add: IsValid_loop_iff)
qed

text \<open>
  Claim C8, as the code has it: a manifest accepted by \<open>IsValid\<close> has a non-empty chunk
  list, a positive height, a non-zero total size and chunks numbered \<open>0 .. N - 1\<close> in order;
  these four conditions are also sufficient. The sum of the chunk sizes is not examined.
\<close>

theorem IsValid_characterisation:
  "IsValid m =
     (vChunks m \<noteq> [] \<and> 0 < unat (nBlockHeight m) \<and> nTotalSize m \<noteq> 0
      \<and> map (\<lambda>c. unat (nChunkNumber c)) (vChunks m) = [0 ..< length (vChunks m)])"
  by (auto simp: IsValid_def IsValid_loop_numbers unat_gt_0)

text \<open>
  Claim C8 as stated fails: this manifest passes \<open>IsValid\<close> although its single chunk has
  size 3 and the declared total size is 5.
\<close>

theorem IsValid_sum_counterexample:
  "IsValid unbalanced_manifest \<and> \<not> spec_manifest_invariants unbalanced_manifest"
  by (simp add: IsValid_def unbalanced_manifest_def spec_manifest_invariants_def
      IsValid_loop.simps [of _ 0] IsValid_loop.simps [of _ "Suc 0"])


section \<open>The compile-time manifests\<close>

lemma GetHardcodedManifest_valid: "IsValid GetHardcodedManifest"
  unfolding IsValid_def IsValid_loop_numbers GetHardcodedManifest_def
    GetHardcodedManifest_chunks_def
  by (simp add: upt_rec)

lemma GetHardcodedManifest_count: "length (vChunks GetHardcodedManifest) = 171"
  by (simp add: GetHardcodedManifest_def GetHardcodedManifest_chunks_def)

lemma GetHardcodedManifest_sizes:
  "list_all (\<lambda>c. nSize c = 52428800) (take 170 (vChunks GetHardcodedManifest))
   \<and> map nSize (drop 170 (vChunks GetHardcodedManifest)) = [40118312]"
  by (simp add: GetHardcodedManifest_def GetHardcodedManifest_chunks_def)

lemma GetHardcodedManifest_sum:
  "sum_list (map (\<lambda>c. unat (nSize c)) (vChunks GetHardcodedManifest)) = 8953014312"
  by (simp add: GetHardcodedManifest_def GetHardcodedManifest_chunks_def)

lemma GetHardcodedManifest_total: "unat (nTotalSize GetHardcodedManifest) = 8953014312"
  by (simp add: GetHardcodedManifest_def)

lemma GetHardcodedParamsManifest_invalid:
  "nBlockHeight GetHardcodedParamsManifest = 0 \<and> \<not> IsValid GetHardcodedParamsManifest"
  by (simp add: GetHardcodedParamsManifest_def IsValid_def)

text \<open>
  Claim C10: the blockchain manifest has 171 chunks, the first 170 of 52,428,800 bytes and
  the last of 40,118,312 bytes, their sizes sum to the declared total 8,953,014,312, and
  \<open>IsValid\<close> accepts it; the parameters manifest has height 0 and \<open>IsValid\<close> rejects it.
\<close>

theorem hardcoded_manifests_validity:
  "IsValid GetHardcodedManifest
   \<and> length (vChunks GetHardcodedManifest) = 171
   \<and> list_all (\<lambda>c. nSize c = 52428800) (take 170 (vChunks GetHardcodedManifest))
   \<and> map nSize (drop 170 (vChunks GetHardcodedManifest)) = [40118312]
   \<and> sum_list (map (\<lambda>c. unat (nSize c)) (vChunks GetHardcodedManifest)) = 8953014312
   \<and> unat (nTotalSize GetHardcodedManifest) = 8953014312
   \<and> nBlockHeight GetHardcodedParamsManifest = 0
   \<and> \<not> IsValid GetHardcodedParamsManifest"
  using GetHardcodedManifest_valid GetHardcodedManifest_count GetHardcodedManifest_sizes
    GetHardcodedManifest_sum GetHardcodedManifest_total GetHardcodedParamsManifest_invalid
  by blast
section \<open>Ordered maps: assignment keeps the keys ascending\<close>

lemma map_assign_keys: "fst ` set (map_assign m k v) = insert k (fst ` set m)"
proof (induction m)
  case Nil
  show ?case by simp
next
  case (Cons p m)
  obtain k' v' where p: "p = (k', v')" by (cases p)
  show ?case
    using Cons.IH by (simp add: p insert_commute)
qed

lemma map_assign_sorted:
  "sorted_wrt (<) (map fst m) \<Longrightarrow> sorted_wrt (<) (map fst (map_assign m k v))"
proof (induction m)
  case Nil
  then show ?case by simp
next
  case (Cons p m)
  obtain k' v' where p: "p = (k', v')" by (cases p)
  have later: "\<forall>x \<in> set (map fst m). k' < x"
    using Cons.prems p by simp
  show ?case
  proof (cases "k < k'")
    case True
    with Cons.prems p later show ?thesis by auto
  next
    case False
    show ?thesis
    proof (cases "k = k'")
      case True
      with Cons.prems p show ?thesis by simp
    next
      case neq: False
      with False have "k' < k" by simp
      then have "\<forall>x \<in> set (map fst (map_assign m k v)). k' < x"
        using later by (simp add: map_assign_keys)
      moreover have "sorted_wrt (<) (map fst (map_assign m k v))"
        using Cons by simp
      ultimately show ?thesis
        using False neq p by simp
    qed
  qed
qed

lemma map_assign_values:
  "(k', b) \<in> set (map_assign m k v) \<Longrightarrow> (k', b) \<in> set m \<or> (k' = k \<and> b = v)"
  by (induction m) (auto split: if_splits)

section \<open>Download state: received chunks stay below the total\<close>

lemma count_received_filter:
  "count_received m c = c + of_nat (length (filter snd m))"
  by (induction m arbitrary: c) auto

lemma unat_image_below:
  fixes N :: "'a::len word"
  shows "unat ` {j. j < N} = {..< unat N}"
proof
  show "unat ` {j. j < N} \<subseteq> {..< unat N}"
    by (auto simp: word_less_nat_alt)
next
  show "{..< unat N} \<subseteq> unat ` {j. j < N}"
  proof
    fix n assume "n \<in> {..< unat N}"
    then have n: "n < unat N" by simp
    have "unat N < 2 ^ LENGTH('a)" by (rule unsigned_less)
    with n have "n < 2 ^ LENGTH('a)" by linarith
    have eq: "unat (of_nat n :: 'a word) = n"
      using n by (intro le_unat_uoi [of n N]) simp
    with n have "(of_nat n :: 'a word) < N"
      by (simp add: word_less_nat_alt)
    with eq show "n \<in> unat ` {j. j < N}"
      by (metis (mono_tags, lifting) image_eqI mem_Collect_eq)
  qed
qed

lemma card_words_below:
  fixes N :: "'a::len word"
  shows "card {j. j < N} = unat N"
proof -
  have "inj_on unat {j :: 'a word. j < N}"
    by (rule inj_on_subset [OF inj_unsigned]) simp
  then have "card (unat ` {j. j < N}) = card {j. j < N}"
    by (rule card_image)
  then show ?thesis
    by (simp add: unat_image_below)
qed

lemma ds_inv_length:
  assumes "ds_inv s"
  shows "length (mapChunksReceived s) \<le> unat (nTotalChunks s)"
proof -
  let ?ks = "map fst (mapChunksReceived s)"
  have "distinct ?ks"
    using assms by (simp add: ds_inv_def strict_sorted_iff)
  then have "card (set ?ks) = length ?ks"
    by (rule distinct_card)
  then have "length (mapChunksReceived s) = card (set ?ks)"
    by simp
  moreover have "set ?ks \<subseteq> {j. j < nTotalChunks s}"
    using assms by (auto simp: ds_inv_def list_all_iff)
  then have "card (set ?ks) \<le> card {j. j < nTotalChunks s}"
    by (intro card_mono) simp_all
  ultimately show ?thesis
    by (simp only: card_words_below)
qed

lemma ds_inv_count:
  assumes "ds_inv s"
  shows "unat (GetReceivedCount s) = length (filter snd (mapChunksReceived s))"
proof -
  have "length (filter snd (mapChunksReceived s)) \<le> length (mapChunksReceived s)"
    by simp
  also have "\<dots> \<le> unat (nTotalChunks s)"
    using assms by (rule ds_inv_length)
  finally have "unat (of_nat (length (filter snd (mapChunksReceived s))) :: uint32)
      = length (filter snd (mapChunksReceived s))"
    by (rule le_unat_uoi)
  then show ?thesis
    by (simp add: GetReceivedCount_def count_received_filter)
qed

lemma ds_inv_init: "ds_inv (CSnapshotDownloadState_init N)"
  by (simp add: ds_inv_def CSnapshotDownloadState_init_def)

lemma MarkChunkReceived_fields:
  "nTotalChunks (MarkChunkReceived s nNow n) = nTotalChunks s
   \<and> mapChunksReceived (MarkChunkReceived s nNow n)
       = (if n < nTotalChunks s then map_assign (mapChunksReceived s) n True
          else mapChunksReceived s)"
  by (simp add: MarkChunkReceived_def Let_def)

lemma ds_inv_MarkChunkReceived:
  assumes "ds_inv s"
  shows "ds_inv (MarkChunkReceived s nNow n)"
proof (cases "n < nTotalChunks s")
  case False
  with assms show ?thesis by (simp add: MarkChunkReceived_def)
next
  case True
  have "sorted_wrt (<) (map fst (map_assign (mapChunksReceived s) n True))"
    using assms by (simp add: ds_inv_def map_assign_sorted)
  moreover have "list_all (\<lambda>p. fst p < nTotalChunks s) (map_assign (mapChunksReceived s) n True)"
  proof -
    have "fst ` set (map_assign (mapChunksReceived s) n True) \<subseteq> {j. j < nTotalChunks s}"
      using assms True by (auto simp: map_assign_keys ds_inv_def list_all_iff)
    then show ?thesis
      by (auto simp: list_all_iff)
  qed
  ultimately show ?thesis
    using True by (simp add: ds_inv_def MarkChunkReceived_fields)
qed

lemma ds_inv_step: "ds_inv s \<Longrightarrow> ds_inv (ds_step s c)"
  by (cases c) (simp_all add: ds_inv_MarkChunkReceived, simp add: ds_inv_def RecordChunkRequest_def)

lemma ds_step_total: "nTotalChunks (ds_step s c) = nTotalChunks s"
  by (cases c) (simp_all add: MarkChunkReceived_fields RecordChunkRequest_def)

lemma ds_run_inv:
  "ds_inv s \<Longrightarrow> ds_inv (ds_run s calls) \<and> nTotalChunks (ds_run s calls) = nTotalChunks s"
  unfolding ds_run_def
  by (induction calls arbitrary: s) (simp_all add: ds_inv_step ds_step_total)


lemma IsComplete_loop_iff:
  "IsComplete_loop s i = (\<forall>j. i \<le> j \<and> j < nTotalChunks s \<longrightarrow> IsChunkReceived s j)"
proof (induction s i rule: IsComplete_loop.induct)
  case (1 s i)
  show ?case
  proof (cases "i < nTotalChunks s")
    case False
    then show ?thesis
      by (auto simp: IsComplete_loop.simps [of s i])
  next
    case True
    then have step: "\<And>j. (i + 1 \<le> j) = (i \<le> j \<and> j \<noteq> i)"
      using unat_succ_less [OF True] by (auto simp: word_le_nat_alt word_unat_eq_iff)
    show ?thesis
    proof (cases "IsChunkReceived s i")
      case False
      with True show ?thesis
        by (auto simp: IsComplete_loop.simps [of s i])
    next
      case rcv: True
      have "IsComplete_loop s i = IsComplete_loop s (i + 1)"
        using True rcv by (simp add: IsComplete_loop.simps [of s i])
      also have "\<dots> = (\<forall>j. i + 1 \<le> j \<and> j < nTotalChunks s \<longrightarrow> IsChunkReceived s j)"
        using 1 True rcv by simp
      also have "\<dots> = (\<forall>j. i \<le> j \<and> j < nTotalChunks s \<longrightarrow> IsChunkReceived s j)"
        using rcv by (auto simp: step)
      finally show ?thesis .
    qed
  qed
qed

lemma GetNextChunkToRequest_loop_complete:
  "IsComplete_loop s i \<Longrightarrow> GetNextChunkToRequest_loop s i = nTotalChunks s"
proof (induction s i rule: GetNextChunkToRequest_loop.induct)
  case (1 s i)
  show ?case
  proof (cases "i < nTotalChunks s")
    case False
    then show ?thesis
      by (simp add: GetNextChunkToRequest_loop.simps [of s i])
  next
    case True
    with "1.prems" have rcv: "IsChunkReceived s i" and rest: "IsComplete_loop s (i + 1)"
      by (auto simp: IsComplete_loop.simps [of s i] split: if_splits)
    with True "1.IH" show ?thesis
      by (simp add: GetNextChunkToRequest_loop.simps [of s i])
  qed
qed

lemma IsChunkReceived_member:
  "IsChunkReceived s n \<Longrightarrow> (n, True) \<in> set (mapChunksReceived s)"
  by (auto simp: IsChunkReceived_def map_find_def split: option.splits dest: map_of_SomeD)

lemma ds_inv_complete_count:
  assumes inv: "ds_inv s" and cmp: "IsComplete s"
  shows "GetReceivedCount s = nTotalChunks s"
proof -
  let ?m = "mapChunksReceived s"
  have all: "\<And>j. j < nTotalChunks s \<Longrightarrow> (j, True) \<in> set ?m"
    using cmp by (simp add: IsComplete_def IsComplete_loop_iff IsChunkReceived_member)
  have dist: "distinct (map fst ?m)"
    using inv by (simp add: ds_inv_def strict_sorted_iff)
  have below: "\<And>p. p \<in> set ?m \<Longrightarrow> fst p < nTotalChunks s"
    using inv by (simp add: ds_inv_def list_all_iff)
  have "snd p" if "p \<in> set ?m" for p
  proof -
    have "(fst p, True) \<in> set ?m"
      using all below that by simp
    moreover have "(fst p, snd p) \<in> set ?m"
      using that by simp
    ultimately have "True = snd p"
      by (rule eq_key_imp_eq_value [OF dist])
    then show ?thesis by simp
  qed
  then have filt: "filter snd ?m = ?m"
    by (simp add: filter_id_conv)
  have "fst ` set ?m = {j. j < nTotalChunks s}"
  proof
    show "fst ` set ?m \<subseteq> {j. j < nTotalChunks s}"
      using below by auto
    show "{j. j < nTotalChunks s} \<subseteq> fst ` set ?m"
      using all by force
  qed
  then have "card (set (map fst ?m)) = unat (nTotalChunks s)"
    by (simp add: card_words_below)
  moreover have "card (set (map fst ?m)) = length (map fst ?m)"
    using dist by (rule distinct_card)
  ultimately have "length ?m = unat (nTotalChunks s)"
    by simp
  with ds_inv_count [OF inv] filt have "unat (GetReceivedCount s) = unat (nTotalChunks s)"
    by simp
  then show ?thesis
    by (simp add: word_unat_eq_iff)
qed

lemma ds_inv_received_below:
  assumes "ds_inv s" and "IsChunkReceived s n"
  shows "n < nTotalChunks s"
proof -
  have "(n, True) \<in> set (mapChunksReceived s)"
    using assms(2) by (rule IsChunkReceived_member)
  moreover have "\<forall>p \<in> set (mapChunksReceived s). fst p < nTotalChunks s"
    using assms(1) by (simp add: ds_inv_def list_all_iff)
  ultimately show ?thesis
    by force
qed

lemma ds_inv_count_le:
  assumes "ds_inv s"
  shows "GetReceivedCount s \<le> nTotalChunks s"
proof -
  have "length (filter snd (mapChunksReceived s)) \<le> length (mapChunksReceived s)"
    by simp
  also have "\<dots> \<le> unat (nTotalChunks s)"
    using assms by (rule ds_inv_length)
  finally show ?thesis
    using ds_inv_count [OF assms] by (simp add: word_le_nat_alt)
qed

text \<open>
  Claim C9: \<open>MarkChunkReceived\<close> with a chunk number not below \<open>nTotalChunks\<close> returns the
  state unchanged; and in every state reached from the constructor state for \<open>N\<close> chunks by
  any sequence of \<open>MarkChunkReceived\<close> and \<open>RecordChunkRequest\<close> calls, only chunks below
  \<open>N\<close> are received, the received count is at most \<open>N\<close>, and a complete state has
  received count \<open>N\<close> and next chunk \<open>N\<close>.
\<close>

theorem download_state_bounds:
  "(nTotalChunks t \<le> n \<longrightarrow> MarkChunkReceived t nNow n = t)
   \<and> (IsChunkReceived (ds_run (CSnapshotDownloadState_init N) calls) k \<longrightarrow> k < N)
   \<and> GetReceivedCount (ds_run (CSnapshotDownloadState_init N) calls) \<le> N
   \<and> (IsComplete (ds_run (CSnapshotDownloadState_init N) calls) \<longrightarrow>
        GetReceivedCount (ds_run (CSnapshotDownloadState_init N) calls) = N
        \<and> GetNextChunkToRequest (ds_run (CSnapshotDownloadState_init N) calls) = N)"
proof -
  let ?s = "ds_run (CSnapshotDownloadState_init N) calls"
  have inv: "ds_inv ?s" and tot: "nTotalChunks ?s = N"
    using ds_run_inv [OF ds_inv_init, of N calls]
    by (simp_all add: CSnapshotDownloadState_init_def)
  have noop: "nTotalChunks t \<le> n \<longrightarrow> MarkChunkReceived t nNow n = t"
    by (simp add: MarkChunkReceived_def)
  have rcv: "IsChunkReceived ?s k \<longrightarrow> k < N"
    using ds_inv_received_below [OF inv] tot by auto
  have cnt: "GetReceivedCount ?s \<le> N"
    using ds_inv_count_le [OF inv] tot by simp
  have cmpl: "IsComplete ?s \<longrightarrow> GetReceivedCount ?s = N \<and> GetNextChunkToRequest ?s = N"
    using ds_inv_complete_count [OF inv] tot
      GetNextChunkToRequest_loop_complete [of ?s 0]
    by (auto simp: IsComplete_def GetNextChunkToRequest_def)
  from noop rcv cnt cmpl show ?thesis
    by blast
qed

text \<open>The theorem at the sample download, which completes three chunks.\<close>

theorem download_state_bounds_witness:
  "MarkChunkReceived (CSnapshotDownloadState_init 3) 50 7 = CSnapshotDownloadState_init 3
   \<and> IsChunkReceived (ds_run (CSnapshotDownloadState_init 3) example_download_calls) 2
   \<and> (2 :: uint32) < 3
   \<and> \<not> IsChunkReceived (ds_run (CSnapshotDownloadState_init 3) example_download_calls) 5
   \<and> IsComplete (ds_run (CSnapshotDownloadState_init 3) example_download_calls)
   \<and> GetReceivedCount (ds_run (CSnapshotDownloadState_init 3) example_download_calls) = 3
   \<and> GetNextChunkToRequest (ds_run (CSnapshotDownloadState_init 3) example_download_calls) = 3"
proof -
  have run: "ds_run (CSnapshotDownloadState_init 3) example_download_calls =
      \<lparr> mapChunksReceived = [(0, True), (1, True), (2, True)], mapChunkRequests = [(1, 102)],
        nTotalChunks = 3, nDownloadStartTime = 100, nLastProgressTime = 130,
        nLastProgressCount = 3 \<rparr>"
    by (simp add: ds_run_def example_download_calls_def CSnapshotDownloadState_init_def
        MarkChunkReceived_def RecordChunkRequest_def GetReceivedCount_def Let_def)
  have c: "IsComplete (ds_run (CSnapshotDownloadState_init 3) example_download_calls)"
    unfolding run by code_simp
  have r2: "IsChunkReceived (ds_run (CSnapshotDownloadState_init 3) example_download_calls) 2"
    unfolding run by (simp add: IsChunkReceived_def map_find_def)
  have r5: "\<not> IsChunkReceived (ds_run (CSnapshotDownloadState_init 3) example_download_calls) 5"
    unfolding run by (simp add: IsChunkReceived_def map_find_def)
  show ?thesis
    using c r2 r5
      download_state_bounds [of "CSnapshotDownloadState_init 3" 7 50 3 example_download_calls 2]
    by (simp add: CSnapshotDownloadState_init_def)
qed
section \<open>Chunk store: verification and writes\<close>

lemma reversed_hash_rev:
  assumes "length h = 32"
  shows "reversed_hash h = uint256_of_bytes (rev h)"
proof -
  have "map (\<lambda>i. h ! (31 - i)) [0 ..< 32] = rev h"
  proof (rule nth_equalityI)
    show "length (map (\<lambda>i. h ! (31 - i)) [0 ..< 32]) = length (rev h)"
      using assms by simp
  next
    fix i assume "i < length (map (\<lambda>i. h ! (31 - i)) [0 ..< 32])"
    then have i: "i < 32" by simp
    then have "map (\<lambda>i. h ! (31 - i)) [0 ..< 32] ! i = h ! (31 - i)"
      by (simp del: upt_rec_numeral)
    also have "\<dots> = rev h ! i"
      using i assms by (simp add: rev_nth)
    finally show "map (\<lambda>i. h ! (31 - i)) [0 ..< 32] ! i = rev h ! i" .
  qed
  then show ?thesis
    by (simp only: reversed_hash_def)
qed

text \<open>
  Claim C1: \<open>VerifyChunk\<close> accepts exactly when the index is within the manifest's chunk
  list, the length equals the chunk's size and the byte-reversed digest of one pass of the
  hash equals the chunk's digest; and whatever \<open>SaveChunk\<close> accepts has passed that test.
\<close>

theorem VerifyChunk_iff:
  assumes "length (sha256 b) = 32"
  shows "(VerifyChunk sha256 st n b \<longleftrightarrow>
            unat n < length (vChunks (manifest st))
            \<and> length b = unat (nSize (vChunks (manifest st) ! unat n))
            \<and> uint256_of_bytes (rev (sha256 b)) = hashChunk (vChunks (manifest st) ! unat n))
         \<and> (fst (SaveChunk sha256 st fs io n b) \<longrightarrow>
            unat n < length (vChunks (manifest st))
            \<and> length b = unat (nSize (vChunks (manifest st) ! unat n))
            \<and> uint256_of_bytes (rev (sha256 b)) = hashChunk (vChunks (manifest st) ! unat n))"
proof -
  have v: "VerifyChunk sha256 st n b \<longleftrightarrow>
            unat n < length (vChunks (manifest st))
            \<and> length b = unat (nSize (vChunks (manifest st) ! unat n))
            \<and> uint256_of_bytes (rev (sha256 b)) = hashChunk (vChunks (manifest st) ! unat n)"
    using reversed_hash_rev [OF assms] by (auto simp: VerifyChunk_def Let_def)
  have "fst (SaveChunk sha256 st fs io n b) \<longrightarrow> VerifyChunk sha256 st n b"
    by (simp add: SaveChunk_def split: write_outcome.splits)
  with v show ?thesis
    by blast
qed

lemma counting_hash_length: "length (counting_hash d) = 32"
  by (simp add: counting_hash_def)

lemma counting_hash_two:
  "uint256_of_bytes (rev (counting_hash [1, 2]))
     = 0x02030405060708090a0b0c0d0e0f101112131415161718191a1b1c1d1e1f2021"
  by (simp add: counting_hash_def upt_rec)

text \<open>The theorem at the example store, with the counting stand-in for the hash.\<close>

theorem VerifyChunk_iff_witness:
  "length (counting_hash [1, 2]) = 32
   \<and> VerifyChunk counting_hash example_store 0 [1, 2]
   \<and> \<not> VerifyChunk counting_hash example_store 0 [1, 2, 3]
   \<and> \<not> VerifyChunk counting_hash example_store 1 [1, 2]
   \<and> fst (SaveChunk counting_hash example_store Map.empty WriteCompletes 0 [1, 2])
   \<and> uint256_of_bytes (rev (counting_hash [1, 2]))
       = hashChunk (vChunks (manifest example_store) ! unat (0 :: uint32))"
proof -
  have a: "VerifyChunk counting_hash example_store 0 [1, 2]"
    using VerifyChunk_iff [of counting_hash "[1, 2]" example_store 0] counting_hash_two
    by (simp add: example_store_def counting_hash_length)
  have b: "\<not> VerifyChunk counting_hash example_store 0 [1, 2, 3]"
    using VerifyChunk_iff [of counting_hash "[1, 2, 3]" example_store 0]
    by (simp add: example_store_def counting_hash_length)
  have c: "\<not> VerifyChunk counting_hash example_store 1 [1, 2]"
    using VerifyChunk_iff [of counting_hash "[1, 2]" example_store 1]
    by (simp add: example_store_def counting_hash_length)
  have d: "fst (SaveChunk counting_hash example_store Map.empty WriteCompletes 0 [1, 2])"
    using a by (simp add: SaveChunk_def GetChunkCount_def example_store_def)
  have e: "uint256_of_bytes (rev (counting_hash [1, 2]))
      = hashChunk (vChunks (manifest example_store) ! unat (0 :: uint32))"
    using d counting_hash_length [of "[1, 2]"]
      VerifyChunk_iff [of counting_hash "[1, 2]" example_store 0 Map.empty WriteCompletes]
    by blast
  from a b c d e counting_hash_length [of "[1, 2]"] show ?thesis by blast
qed

text \<open>
  Claim C2, as the code has it: \<open>SaveChunk\<close> changes the file system only when the index
  is valid and \<open>VerifyChunk\<close> (size and digest) succeeded, and then only at the chunk's own
  path; it fails without any change when the index or the verification is bad, when the
  file cannot be opened and when an exception precedes the creation of the file; and it
  never removes a file.
\<close>

theorem SaveChunk_writes:
  assumes "SaveChunk sha256 st fs io n b = (ok, fs')"
  shows "(fs' \<noteq> fs \<longrightarrow>
            n < GetChunkCount (manifest st) \<and> VerifyChunk sha256 st n b)
         \<and> (\<forall>p. p \<noteq> chunkPath st n \<longrightarrow> fs' p = fs p)
         \<and> ((GetChunkCount (manifest st) \<le> n \<or> \<not> VerifyChunk sha256 st n b
              \<or> io = OpenFails \<or> io = ThrowsBeforeOpen) \<longrightarrow> \<not> ok \<and> fs' = fs)
         \<and> dom fs \<subseteq> dom fs'"
  using assms
  by (auto simp: SaveChunk_def split: if_splits write_outcome.splits)

lemma example_store_chunkPath: "chunkPath example_store 0 = ''snapshots/7/chunk-000.dat''"
  by code_simp

text \<open>The theorem at a successful write and at a failed open of the example store.\<close>

theorem SaveChunk_writes_witness:
  "SaveChunk counting_hash example_store Map.empty WriteCompletes 0 [1, 2]
     = (True, [''snapshots/7/chunk-000.dat'' \<mapsto> [1, 2]])
   \<and> (0 :: uint32) < GetChunkCount (manifest example_store)
   \<and> VerifyChunk counting_hash example_store 0 [1, 2]
   \<and> SaveChunk counting_hash example_store Map.empty OpenFails 0 [1, 2] = (False, Map.empty)"
proof -
  have v: "VerifyChunk counting_hash example_store 0 [1, 2]"
    using reversed_hash_rev [OF counting_hash_length, of "[1, 2]"] counting_hash_two
    by (simp add: VerifyChunk_def example_store_def)
  have s: "SaveChunk counting_hash example_store Map.empty WriteCompletes 0 [1, 2]
     = (True, [''snapshots/7/chunk-000.dat'' \<mapsto> [1, 2]])"
    using v by (simp add: SaveChunk_def GetChunkCount_def example_store_chunkPath)
       (simp add: example_store_def)
  have ne: "[''snapshots/7/chunk-000.dat'' \<mapsto> [1, 2 :: uint8]] \<noteq> Map.empty"
    by simp
  have o: "SaveChunk counting_hash example_store Map.empty OpenFails 0 [1, 2]
      = (fst (SaveChunk counting_hash example_store Map.empty OpenFails 0 [1, 2]),
         snd (SaveChunk counting_hash example_store Map.empty OpenFails 0 [1, 2]))"
    by simp
  from SaveChunk_writes [OF s] SaveChunk_writes [OF o] ne s show ?thesis
    by (metis prod.collapse)
qed

text \<open>
  Claim C2 as stated fails: when an exception leaves the \<open>try\<close> block after one of the two
  bytes was written, \<open>SaveChunk\<close> returns failure and the one-byte file is still there.
\<close>

theorem SaveChunk_partial_file_counterexample:
  "SaveChunk counting_hash example_store Map.empty (ThrowsAfter 1) 0 [1, 2]
     = (False, [chunkPath example_store 0 \<mapsto> [1]])"
proof -
  have v: "VerifyChunk counting_hash example_store 0 [1, 2]"
    using reversed_hash_rev [OF counting_hash_length, of "[1, 2]"] counting_hash_two
    by (simp add: VerifyChunk_def example_store_def)
  then show ?thesis
    by (simp add: SaveChunk_def GetChunkCount_def example_store_def)
qed
section \<open>Rate limiter: the counter of active transfers\<close>

lemma AllowRequest_limits: "rl_limits (snd (AllowRequest s nNow addr nChunk)) = rl_limits s"
  by (simp add: AllowRequest_def rl_limits_def Let_def)

lemma rl_step_limits: "rl_limits (snd (rl_step s c)) = rl_limits s"
proof (cases c)
  case (Pair nNow call)
  show ?thesis
  proof (cases call)
    case (CallAllowRequest addr nChunk)
    with Pair AllowRequest_limits [of s nNow addr nChunk] show ?thesis
      by (simp add: split_beta)
  next
    case (CallRecordServed addr nChunk nBytes)
    with Pair show ?thesis by (simp add: RecordServed_def rl_limits_def Let_def)
  next
    case CallCompleteTransfer
    with Pair show ?thesis by (simp add: CompleteTransfer_def rl_limits_def)
  next
    case CallCleanup
    with Pair show ?thesis by (simp add: Cleanup_def rl_limits_def Let_def)
  qed
qed

lemma rl_run_limits: "rl_limits (snd (rl_run s cs)) = rl_limits s"
proof (induction cs arbitrary: s)
  case Nil
  show ?case by simp
next
  case (Cons c cs)
  have "rl_limits (snd (rl_run (snd (rl_step s c)) cs)) = rl_limits (snd (rl_step s c))"
    by (rule Cons.IH)
  then show ?case
    by (simp add: split_beta rl_step_limits)
qed

lemma AllowRequest_active:
  "nActiveTransfers (snd (AllowRequest s nNow addr nChunk))
     = (if fst (AllowRequest s nNow addr nChunk) = Admitted
        then nActiveTransfers s + 1 else nActiveTransfers s)"
  by (simp add: AllowRequest_def Let_def)

lemma AllowRequest_at_capacity:
  "nMaxConcurrentTransfers s \<le> nActiveTransfers s
     \<Longrightarrow> fst (AllowRequest s nNow addr nChunk) \<noteq> Admitted"
  by (simp add: AllowRequest_def Let_def)

lemma AllowRequest_admitted_below:
  "fst (AllowRequest s nNow addr nChunk) = Admitted
     \<Longrightarrow> nActiveTransfers s < nMaxConcurrentTransfers s"
  using AllowRequest_at_capacity [of s nNow addr nChunk] by (auto simp: not_le [symmetric])

lemma CompleteTransfer_active:
  "unat (nActiveTransfers (CompleteTransfer s)) = unat (nActiveTransfers s) - 1"
proof (cases "nActiveTransfers s = 0")
  case True
  then show ?thesis by (simp add: CompleteTransfer_def)
next
  case False
  then have "0 < nActiveTransfers s" by (simp add: word_greater_zero_iff)
  moreover have "unat (nActiveTransfers s - 1) = unat (nActiveTransfers s) - 1"
    using False by (simp add: unat_minus_one)
  ultimately show ?thesis by (simp add: CompleteTransfer_def)
qed

lemma rl_step_active_ok:
  assumes "active_ok s"
  shows "active_ok (snd (rl_step s c))"
proof -
  have lim: "nMaxConcurrentTransfers (snd (rl_step s c)) = nMaxConcurrentTransfers s"
    using rl_step_limits [of s c] by (simp add: rl_limits_def)
  obtain nNow call where c: "c = (nNow, call)" by (cases c)
  show ?thesis
  proof (cases call)
    case (CallAllowRequest addr nChunk)
    show ?thesis
    proof (cases "fst (AllowRequest s nNow addr nChunk) = Admitted")
      case True
      then have "nActiveTransfers s < nMaxConcurrentTransfers s"
        by (rule AllowRequest_admitted_below)
      then have "nActiveTransfers s + 1 \<le> nMaxConcurrentTransfers s"
        by (rule inc_le)
      with True lim c CallAllowRequest AllowRequest_active [of s nNow addr nChunk] show ?thesis
        by (simp add: active_ok_def split_beta)
    next
      case False
      with assms lim c CallAllowRequest AllowRequest_active [of s nNow addr nChunk] show ?thesis
        by (simp add: active_ok_def split_beta)
    qed
  next
    case (CallRecordServed addr nChunk nBytes)
    with assms c show ?thesis by (simp add: active_ok_def RecordServed_def Let_def)
  next
    case CallCompleteTransfer
    have "unat (nActiveTransfers (CompleteTransfer s)) \<le> unat (nActiveTransfers s)"
      by (simp add: CompleteTransfer_active)
    then have "nActiveTransfers (CompleteTransfer s) \<le> nActiveTransfers s"
      by (simp add: word_le_nat_alt)
    with assms lim c CallCompleteTransfer show ?thesis
      by (simp add: active_ok_def)
  next
    case CallCleanup
    with assms c show ?thesis by (simp add: active_ok_def Cleanup_def Let_def)
  qed
qed

lemma rl_run_active_ok: "active_ok s \<Longrightarrow> active_ok (snd (rl_run s cs))"
proof (induction cs arbitrary: s)
  case Nil
  then show ?case by simp
next
  case (Cons c cs)
  have "active_ok (snd (rl_run (snd (rl_step s c)) cs))"
    using Cons.prems by (intro Cons.IH rl_step_active_ok)
  then show ?case
    by (simp add: split_beta)
qed

text \<open>
  Claim C5: in every state reached from the constructor state by \<open>AllowRequest\<close>,
  \<open>CompleteTransfer\<close> (and \<open>RecordServed\<close>, \<open>Cleanup\<close>) calls, the counter of active
  transfers is at most the cap, which is still 25; \<open>AllowRequest\<close> rejects at the cap and
  adds one exactly when it admits; \<open>CompleteTransfer\<close> subtracts one and stops at zero.
\<close>

theorem active_transfers_bounded:
  "nActiveTransfers (snd (rl_run (CSnapshotRateLimiter_init t0) calls))
       \<le> nMaxConcurrentTransfers (snd (rl_run (CSnapshotRateLimiter_init t0) calls))
   \<and> nMaxConcurrentTransfers (snd (rl_run (CSnapshotRateLimiter_init t0) calls)) = 25
   \<and> (nMaxConcurrentTransfers s \<le> nActiveTransfers s \<longrightarrow>
         fst (AllowRequest s nNow addr nChunk) \<noteq> Admitted)
   \<and> nActiveTransfers (snd (AllowRequest s nNow addr nChunk))
       = (if fst (AllowRequest s nNow addr nChunk) = Admitted
          then nActiveTransfers s + 1 else nActiveTransfers s)
   \<and> unat (nActiveTransfers (CompleteTransfer s)) = unat (nActiveTransfers s) - 1"
proof -
  let ?s = "snd (rl_run (CSnapshotRateLimiter_init t0 :: 'a CSnapshotRateLimiter) calls)"
  have "active_ok (CSnapshotRateLimiter_init t0 :: 'a CSnapshotRateLimiter)"
    by (simp add: active_ok_def CSnapshotRateLimiter_init_def)
  then have a: "nActiveTransfers ?s \<le> nMaxConcurrentTransfers ?s"
    using rl_run_active_ok [of "CSnapshotRateLimiter_init t0" calls] by (simp add: active_ok_def)
  have b: "nMaxConcurrentTransfers ?s = 25"
    using rl_run_limits [of "CSnapshotRateLimiter_init t0 :: 'a CSnapshotRateLimiter" calls]
    by (simp add: rl_limits_def CSnapshotRateLimiter_init_def)
  from a b AllowRequest_at_capacity [of s nNow addr nChunk]
    AllowRequest_active [of s nNow addr nChunk] CompleteTransfer_active [of s]
  show ?thesis by blast
qed

lemma capacity_run:
  "fst (rl_run (CSnapshotRateLimiter_init 1000) capacity_calls)
     = replicate 25 (Some Admitted) @ [Some (Rejected ServerAtCapacity)]
   \<and> nActiveTransfers (snd (rl_run (CSnapshotRateLimiter_init 1000) capacity_calls)) = 25"
  by code_simp

text \<open>
  The theorem at twenty-six simultaneous peers: 25 are admitted, the last is rejected at
  capacity, and so is any further request.
\<close>

theorem active_transfers_bounded_witness:
  "fst (rl_run (CSnapshotRateLimiter_init 1000) capacity_calls)
     = replicate 25 (Some Admitted) @ [Some (Rejected ServerAtCapacity)]
   \<and> nActiveTransfers (snd (rl_run (CSnapshotRateLimiter_init 1000) capacity_calls)) = 25
   \<and> fst (AllowRequest (snd (rl_run (CSnapshotRateLimiter_init 1000) capacity_calls)) 1000 99 0)
       \<noteq> Admitted"
  using capacity_run
    active_transfers_bounded [of 1000 capacity_calls
      "snd (rl_run (CSnapshotRateLimiter_init 1000) capacity_calls)" 1000 99 0]
  by simp
section \<open>Rate limiter: the ban threshold\<close>

lemma drop_old_length: "length (drop_old nNow w) \<le> length w"
  by (induction w) auto

lemma never_banned_entry:
  "never_banned s \<Longrightarrow>
     \<not> bIsBanned (peer_entry (mapPeerRequests s) addr)
     \<and> nBanUntil (peer_entry (mapPeerRequests s) addr) = 0
     \<and> length (requestTimes (peer_entry (mapPeerRequests s) addr))
         \<le> unat (nMaxChunksPerPeerPerMinute s)"
  by (auto simp: never_banned_def peer_entry_def PeerRequestInfo_init_def split: option.splits)

lemma AllowRequest_never_banned:
  assumes nb: "never_banned s"
    and thr: "nMaxChunksPerPeerPerMinute s < nBanThreshold s"
  shows "never_banned (snd (AllowRequest s nNow addr nChunk))
         \<and> fst (AllowRequest s nNow addr nChunk) \<noteq> Rejected PeerBanned"
proof -
  let ?e = "peer_entry (mapPeerRequests s) addr"
  have e: "\<not> bIsBanned ?e" "nBanUntil ?e = 0"
    "length (requestTimes ?e) \<le> unat (nMaxChunksPerPeerPerMinute s)"
    using never_banned_entry [OF nb, of addr] by simp_all
  have d: "length (drop_old nNow (requestTimes ?e)) \<le> unat (nMaxChunksPerPeerPerMinute s)"
    using drop_old_length [of nNow "requestTimes ?e"] e(3) by linarith
  have t: "unat (nMaxChunksPerPeerPerMinute s) < unat (nBanThreshold s)"
    using thr by (simp add: word_less_nat_alt)
  have others: "\<And>a info. a \<noteq> addr \<Longrightarrow> mapPeerRequests s a = Some info \<Longrightarrow>
      \<not> bIsBanned info \<and> nBanUntil info = 0
        \<and> length (requestTimes info) \<le> unat (nMaxChunksPerPeerPerMinute s)"
    using nb by (simp add: never_banned_def)
  show ?thesis
    unfolding never_banned_def AllowRequest_def Let_def
    using e d t others by (auto split: if_splits)
qed

lemma rl_step_never_banned:
  assumes nb: "never_banned s"
    and thr: "nMaxChunksPerPeerPerMinute s < nBanThreshold s"
  shows "never_banned (snd (rl_step s c)) \<and> fst (rl_step s c) \<noteq> Some (Rejected PeerBanned)"
proof -
  obtain nNow call where c: "c = (nNow, call)" by (cases c)
  show ?thesis
  proof (cases call)
    case (CallAllowRequest addr nChunk)
    with c AllowRequest_never_banned [OF nb thr, of nNow addr nChunk] show ?thesis
      by (simp add: split_beta)
  next
    case (CallRecordServed addr nChunk nBytes)
    have "never_banned (RecordServed s nNow addr nChunk nBytes)"
      unfolding never_banned_def RecordServed_def Let_def
      using never_banned_entry [OF nb, of addr] nb
      by (auto simp: never_banned_def split: if_splits)
    with c CallRecordServed show ?thesis by simp
  next
    case CallCompleteTransfer
    with c nb show ?thesis by (simp add: never_banned_def CompleteTransfer_def)
  next
    case CallCleanup
    have "never_banned (Cleanup s nNow)"
      unfolding never_banned_def Cleanup_def Let_def
      using nb by (auto simp: never_banned_def split: option.splits if_splits)
    with c CallCleanup show ?thesis by simp
  qed
qed

lemma rl_run_never_banned:
  assumes "never_banned s" and "nMaxChunksPerPeerPerMinute s < nBanThreshold s"
  shows "never_banned (snd (rl_run s cs)) \<and> Some (Rejected PeerBanned) \<notin> set (fst (rl_run s cs))"
  using assms
proof (induction cs arbitrary: s)
  case Nil
  then show ?case by simp
next
  case (Cons c cs)
  let ?s' = "snd (rl_step s c)"
  have step: "never_banned ?s'" "fst (rl_step s c) \<noteq> Some (Rejected PeerBanned)"
    using rl_step_never_banned [OF Cons.prems, of c] by simp_all
  have "rl_limits ?s' = rl_limits s"
    by (rule rl_step_limits)
  then have "nMaxChunksPerPeerPerMinute ?s' < nBanThreshold ?s'"
    using Cons.prems(2) by (simp add: rl_limits_def)
  with step(1) have "never_banned (snd (rl_run ?s' cs))
      \<and> Some (Rejected PeerBanned) \<notin> set (fst (rl_run ?s' cs))"
    by (rule Cons.IH)
  with step(2) show ?case
    by (simp add: split_beta)
qed

text \<open>
  With the limits of the constructor (30 per minute, ban threshold 100) no call sequence
  ever bans a peer: the window holds admitted requests only and therefore never more than
  30 entries, so the threshold test inside the rate-limit branch is never true.
\<close>

lemma default_limits_never_ban:
  "never_banned (snd (rl_run (CSnapshotRateLimiter_init t0) calls))
   \<and> Some (Rejected PeerBanned) \<notin> set (fst (rl_run (CSnapshotRateLimiter_init t0) calls))
   \<and> \<not> IsBanned (snd (rl_run (CSnapshotRateLimiter_init t0) calls)) nNow addr"
proof -
  let ?s0 = "CSnapshotRateLimiter_init t0 :: 'a CSnapshotRateLimiter"
  have "never_banned ?s0" and "nMaxChunksPerPeerPerMinute ?s0 < nBanThreshold ?s0"
    by (simp_all add: never_banned_def CSnapshotRateLimiter_init_def)
  then have r: "never_banned (snd (rl_run ?s0 calls))
      \<and> Some (Rejected PeerBanned) \<notin> set (fst (rl_run ?s0 calls))"
    by (rule rl_run_never_banned)
  then have "\<not> IsBanned (snd (rl_run ?s0 calls)) nNow addr"
    by (auto simp: IsBanned_def never_banned_def split: option.splits)
  with r show ?thesis by simp
qed

lemma rl_run_append:
  "rl_run s (xs @ ys) =
     (fst (rl_run s xs) @ fst (rl_run (snd (rl_run s xs)) ys),
      snd (rl_run (snd (rl_run s xs)) ys))"
  by (induction xs arbitrary: s) (simp_all add: split_beta)

lemma s3_peer_entry: "peer_entry (mapPeerRequests (s3_state n)) 7 = s3_entry n"
  by (simp add: s3_state_def peer_entry_def s3_entry_def PeerRequestInfo_init_def)

lemma s3_drop_old:
  assumes "n \<le> 30" and "1000 + 2 * int n - 2 \<le> nNow" and "nNow \<le> 1060"
  shows "drop_old nNow (map (\<lambda>j. 1000 + 2 * int j) [0 ..< n]) = map (\<lambda>j. 1000 + 2 * int j) [0 ..< n]"
proof (cases n)
  case 0
  then show ?thesis by simp
next
  case (Suc k)
  have "[0 ..< Suc k] = 0 # [1 ..< Suc k]"
    by (simp add: upt_rec)
  with Suc assms show ?thesis by simp
qed

lemma s3_spaced_step:
  assumes "n < 30"
  shows "AllowRequest (s3_state n) (1000 + 2 * int n) 7 nChunk
           = (Admitted, (s3_state (Suc n))\<lparr> nActiveTransfers := 1 \<rparr>)"
proof -
  have d: "drop_old (1000 + 2 * int n) (map (\<lambda>j. 1000 + 2 * int j) [0 ..< n])
      = map (\<lambda>j. 1000 + 2 * int j) [0 ..< n]"
    using assms by (intro s3_drop_old) simp_all
  have e: "peer_entry (mapPeerRequests (s3_state n)) 7 = s3_entry n"
    by (rule s3_peer_entry)
  have fields: "nActiveTransfers (s3_state n) = 0" "nMaxConcurrentTransfers (s3_state n) = 25"
    "nMinSecondsBetweenRequests (s3_state n) = 2" "nMaxChunksPerPeerPerMinute (s3_state n) = 30"
    by (simp_all add: s3_state_def CSnapshotRateLimiter_init_def)
  have entry: "bIsBanned (s3_entry n) = False" "servedChunks (s3_entry n) = Map.empty"
    "requestTimes (s3_entry n) = map (\<lambda>j. 1000 + 2 * int j) [0 ..< n]"
    "nLastRequestTime (s3_entry n) = (if n = 0 then 0 else 998 + 2 * int n)"
    by (simp_all add: s3_entry_def)
  have new: "(s3_entry n)\<lparr> requestTimes := map (\<lambda>j. 1000 + 2 * int j) [0 ..< n] @ [1000 + 2 * int n],
        nLastRequestTime := 1000 + 2 * int n, nTotalRequests := nTotalRequests (s3_entry n) + 1 \<rparr>
      = s3_entry (Suc n)"
    by (simp add: s3_entry_def)
  have upd: "(s3_state n)\<lparr> mapPeerRequests := (mapPeerRequests (s3_state n))(7 \<mapsto> s3_entry (Suc n)),
        nActiveTransfers := 1 \<rparr> = (s3_state (Suc n))\<lparr> nActiveTransfers := 1 \<rparr>"
    by (simp add: s3_state_def)
  show ?thesis
    unfolding AllowRequest_def Let_def e
    using assms by (simp add: fields entry d new upd)
qed

lemma s3_complete: "CompleteTransfer ((s3_state n)\<lparr> nActiveTransfers := 1 \<rparr>) = s3_state n"
  by (simp add: CompleteTransfer_def s3_state_def CSnapshotRateLimiter_init_def)

lemma s3_spaced_run:
  "n \<le> 30 \<Longrightarrow>
     rl_run (s3_state 0) (s3_spaced n) = (concat (replicate n [Some Admitted, None]), s3_state n)"
proof (induction n)
  case 0
  show ?case by (simp add: s3_spaced_def)
next
  case (Suc n)
  then have IH: "rl_run (s3_state 0) (s3_spaced n)
      = (concat (replicate n [Some Admitted, None]), s3_state n)" and n: "n < 30"
    by simp_all
  have split: "s3_spaced (Suc n) = s3_spaced n @
      [(1000 + 2 * int n, CallAllowRequest 7 (of_nat n)), (1000 + 2 * int n, CallCompleteTransfer)]"
    by (simp add: s3_spaced_def)
  have last: "rl_run (s3_state n)
        [(1000 + 2 * int n, CallAllowRequest 7 (of_nat n)), (1000 + 2 * int n, CallCompleteTransfer)]
      = ([Some Admitted, None], s3_state (Suc n))"
    by (simp add: s3_spaced_step [OF n] s3_complete)
  have "concat (replicate n [Some Admitted, None :: admission option]) @ [Some Admitted, None]
      = concat (replicate (Suc n) [Some Admitted, None])"
    by (induction n) simp_all
  then show ?case
    by (simp only: split rl_run_append IH last fst_conv snd_conv)
qed

lemma s3_burst_step:
  "AllowRequest (s3_state 30) 1060 7 nChunk = (Rejected RateLimit, s3_state 30)"
proof -
  have d: "drop_old 1060 (map (\<lambda>j. 1000 + 2 * int j) [0 ..< 30])
      = map (\<lambda>j. 1000 + 2 * int j) [0 ..< 30]"
    by (intro s3_drop_old) simp_all
  have e: "peer_entry (mapPeerRequests (s3_state 30)) 7 = s3_entry 30"
    by (rule s3_peer_entry)
  have fields: "nActiveTransfers (s3_state 30) = 0" "nMaxConcurrentTransfers (s3_state 30) = 25"
    "nMinSecondsBetweenRequests (s3_state 30) = 2" "nMaxChunksPerPeerPerMinute (s3_state 30) = 30"
    "nBanThreshold (s3_state 30) = 100"
    by (simp_all add: s3_state_def CSnapshotRateLimiter_init_def)
  have entry: "bIsBanned (s3_entry 30) = False" "servedChunks (s3_entry 30) = Map.empty"
    "requestTimes (s3_entry 30) = map (\<lambda>j. 1000 + 2 * int j) [0 ..< 30]"
    "nLastRequestTime (s3_entry 30) = 1058"
    by (simp_all add: s3_entry_def)
  have same: "(s3_entry 30)\<lparr> requestTimes := map (\<lambda>j. 1000 + 2 * int j) [0 ..< 30] \<rparr> = s3_entry 30"
    by (simp add: s3_entry_def)
  have upd: "(s3_state 30)\<lparr> mapPeerRequests := (mapPeerRequests (s3_state 30))(7 \<mapsto> s3_entry 30) \<rparr>
      = s3_state 30"
    by (simp add: s3_state_def)
  show ?thesis
    unfolding AllowRequest_def Let_def e
    by (simp add: fields entry d same upd del: upt_rec_numeral)
qed

lemma s3_burst_run:
  "rl_run (s3_state 30) (s3_burst a b)
     = (replicate (b - a) (Some (Rejected RateLimit)), s3_state 30)"
proof -
  have "rl_run (s3_state 30) (map (\<lambda>i. (1060, CallAllowRequest 7 (of_nat i))) xs)
      = (replicate (length xs) (Some (Rejected RateLimit)), s3_state 30)" for xs :: "nat list"
    by (induction xs) (simp_all add: s3_burst_step)
  from this [of "[a ..< b]"] show ?thesis
    by (simp add: s3_burst_def)
qed

lemma s3_run:
  "rl_run (CSnapshotRateLimiter_init 1000) (s3_spaced 30 @ s3_burst 30 b)
     = (concat (replicate 30 [Some Admitted, None]) @ replicate (b - 30) (Some (Rejected RateLimit)),
        s3_state 30)"
proof -
  have "s3_state 0 = CSnapshotRateLimiter_init 1000"
    by (simp add: s3_state_def CSnapshotRateLimiter_init_def)
  then show ?thesis
    using s3_spaced_run [of 30] s3_burst_run [of 30 b]
    by (simp add: rl_run_append)
qed

text \<open>
  Claim C3 at its own scenario. One peer sends 150 requests within the 60 seconds from
  1000 to 1060: thirty of them two seconds apart (each transfer completed at once), the
  other 120 at second 1060. The first 30 are admitted and every later one is rejected by
  the rate limit; neither the 100th request nor any later one sets a ban.
\<close>

theorem s3_scenario_sets_no_ban:
  "filter (\<lambda>r. r \<noteq> None) (fst (rl_run (CSnapshotRateLimiter_init 1000) s3_calls))
     = replicate 30 (Some Admitted) @ replicate 120 (Some (Rejected RateLimit))
   \<and> map_option (\<lambda>info. (bIsBanned info, nBanUntil info, length (requestTimes info)))
        (mapPeerRequests
           (snd (rl_run (CSnapshotRateLimiter_init 1000) (s3_spaced 30 @ s3_burst 30 100))) 7)
       = Some (False, 0, 30)
   \<and> map_option (\<lambda>info. (bIsBanned info, nBanUntil info, length (requestTimes info)))
        (mapPeerRequests (snd (rl_run (CSnapshotRateLimiter_init 1000) s3_calls)) 7)
       = Some (False, 0, 30)
   \<and> \<not> IsBanned (snd (rl_run (CSnapshotRateLimiter_init 1000) s3_calls)) 1060 7"
proof -
  have f: "filter (\<lambda>r. r \<noteq> None) (concat (replicate n [Some Admitted, None :: admission option]))
      = replicate n (Some Admitted)" for n
    by (induction n) simp_all
  have g: "filter (\<lambda>r. r \<noteq> None) (replicate n (Some (Rejected RateLimit)))
      = replicate n (Some (Rejected RateLimit))" for n
    by (induction n) simp_all
  have e: "mapPeerRequests (s3_state 30) 7 = Some (s3_entry 30)"
    by (simp add: s3_state_def)
  have v: "bIsBanned (s3_entry 30) = False \<and> nBanUntil (s3_entry 30) = 0
      \<and> length (requestTimes (s3_entry 30)) = 30"
    by (simp add: s3_entry_def del: upt_rec_numeral)
  have r: "filter (\<lambda>r. r \<noteq> None) (fst (rl_run (CSnapshotRateLimiter_init 1000) s3_calls))
      = replicate 30 (Some Admitted) @ replicate 120 (Some (Rejected RateLimit))"
    unfolding s3_calls_def s3_run fst_conv filter_append f g by simp
  have s100: "snd (rl_run (CSnapshotRateLimiter_init 1000) (s3_spaced 30 @ s3_burst 30 100))
      = s3_state 30"
    by (simp only: s3_run snd_conv)
  have s150: "snd (rl_run (CSnapshotRateLimiter_init 1000) s3_calls) = s3_state 30"
    by (simp only: s3_calls_def s3_run snd_conv)
  have b: "\<not> IsBanned (s3_state 30) 1060 7"
    using v by (simp add: IsBanned_def e)
  show ?thesis
    unfolding s100 s150 using r v b by (simp add: e)
qed
section \<open>Rate limiter: admissions per sliding window\<close>

lemma filter_length_mono:
  "(\<And>x. x \<in> set xs \<Longrightarrow> P x \<Longrightarrow> Q x) \<Longrightarrow> length (filter P xs) \<le> length (filter Q xs)"
  by (induction xs) auto

lemma drop_old_recent: "sorted w \<Longrightarrow> drop_old nNow w = recent nNow w"
proof (induction w)
  case Nil
  show ?case by (simp add: recent_def)
next
  case (Cons x w)
  show ?case
  proof (cases "nNow - x > 60")
    case True
    with Cons show ?thesis by (simp add: recent_def)
  next
    case False
    then have "\<forall>y \<in> set (x # w). nNow - 60 \<le> y"
      using Cons.prems by auto
    then have "filter (\<lambda>y. nNow - 60 \<le> y) (x # w) = x # w"
      by (simp only: filter_True)
    with False show ?thesis by (simp add: recent_def)
  qed
qed

lemma recent_recent: "T \<le> T' \<Longrightarrow> recent T' (recent T w) = recent T' w"
  unfolding recent_def filter_filter
  by (rule filter_cong) auto

lemma recent_empty:
  assumes "\<And>x. x \<in> set w \<Longrightarrow> x + 60 < T"
  shows "recent T w = []"
proof -
  have "\<not> T - 60 \<le> x" if "x \<in> set w" for x
    using assms [OF that] by linarith
  then show ?thesis
    by (simp add: recent_def filter_empty_conv)
qed

lemma entry_inv_advance:
  "entry_inv info H T M \<Longrightarrow> T \<le> T' \<Longrightarrow> entry_inv info H T' M"
  unfolding entry_inv_def by (meson order_trans)

lemma entry_inv_unban:
  assumes inv: "entry_inv info H T M" and b: "bIsBanned info" and u: "nBanUntil info \<le> T"
  shows "entry_inv (info\<lparr> bIsBanned := False, nBanUntil := 0, requestTimes := [] \<rparr>) H T M"
proof -
  have "length (recent T' H) \<le> length (recent T' [])" if "T \<le> T'" for T'
  proof -
    have "\<And>x. x \<in> set (requestTimes info) \<Longrightarrow> x + 60 < T'"
      using inv b u that unfolding entry_inv_def by fastforce
    then have "recent T' (requestTimes info) = []"
      by (rule recent_empty)
    moreover have "length (recent T' H) \<le> length (recent T' (requestTimes info))"
      using inv that unfolding entry_inv_def by blast
    ultimately show ?thesis by simp
  qed
  moreover have "\<forall>t. length (in_window t H) \<le> M"
    using inv unfolding entry_inv_def by blast
  ultimately show ?thesis
    unfolding entry_inv_def by simp
qed

lemma entry_inv_drop:
  assumes inv: "entry_inv info H T M"
  shows "entry_inv (info\<lparr> requestTimes := drop_old T (requestTimes info) \<rparr>) H T M"
proof -
  have s: "sorted (requestTimes info)"
    using inv unfolding entry_inv_def by blast
  have d: "drop_old T (requestTimes info) = recent T (requestTimes info)"
    using s by (rule drop_old_recent)
  have sub: "set (recent T (requestTimes info)) \<subseteq> set (requestTimes info)"
    by (simp add: recent_def)
  have "sorted (recent T (requestTimes info))"
    using s by (simp add: recent_def sorted_wrt_filter)
  moreover have "\<forall>x \<in> set (recent T (requestTimes info)). x \<le> T \<and> x \<le> nLastRequestTime info"
    using inv sub unfolding entry_inv_def by blast
  moreover have "bIsBanned info \<longrightarrow>
      (\<forall>x \<in> set (recent T (requestTimes info)). x + 60 < nBanUntil info)"
    using inv sub unfolding entry_inv_def by blast
  moreover have "\<forall>T'. T \<le> T' \<longrightarrow>
      length (recent T' H) \<le> length (recent T' (recent T (requestTimes info)))"
    using inv unfolding entry_inv_def by (simp add: recent_recent)
  moreover have "\<forall>t. length (in_window t H) \<le> M"
    using inv unfolding entry_inv_def by blast
  ultimately show ?thesis
    unfolding entry_inv_def d by simp
qed

lemma entry_inv_ban:
  assumes inv: "entry_inv info H T M" and d: "60 < d"
  shows "entry_inv (info\<lparr> bIsBanned := True, nBanUntil := T + d \<rparr>) H T M"
proof -
  have "\<forall>x \<in> set (requestTimes info). x + 60 < T + d"
    using inv d unfolding entry_inv_def by fastforce
  with inv show ?thesis
    unfolding entry_inv_def by simp
qed

lemma entry_inv_admit:
  assumes inv: "entry_inv info H T M" and nb: "\<not> bIsBanned info"
    and room: "length (requestTimes info) < M"
  shows "entry_inv (info\<lparr> requestTimes := requestTimes info @ [T], nLastRequestTime := T,
                           nTotalRequests := n \<rparr>) (H @ [T]) T M"
proof -
  let ?w = "requestTimes info"
  have le: "\<forall>x \<in> set ?w. x \<le> T"
    using inv unfolding entry_inv_def by blast
  have "sorted (?w @ [T])"
    using inv le unfolding entry_inv_def by (simp add: sorted_append)
  moreover have "\<forall>x \<in> set (?w @ [T]). x \<le> T \<and> x \<le> T"
    using le by simp
  moreover have "\<forall>T'. T \<le> T' \<longrightarrow>
      length (recent T' (H @ [T])) \<le> length (recent T' (?w @ [T]))"
    using inv unfolding entry_inv_def by (simp add: recent_def)
  moreover have "length (in_window t (H @ [T])) \<le> M" for t
  proof (cases "t \<le> T \<and> T \<le> t + 60")
    case False
    then have "in_window t (H @ [T]) = in_window t H"
      by (auto simp: in_window_def)
    with inv show ?thesis
      unfolding entry_inv_def by simp
  next
    case True
    have "length (in_window t H) \<le> length (recent T H)"
      unfolding in_window_def recent_def using True by (intro filter_length_mono) simp
    also have "\<dots> \<le> length (recent T ?w)"
      using inv unfolding entry_inv_def by blast
    also have "\<dots> \<le> length ?w"
      by (simp add: recent_def)
    finally have "length (in_window t H) < M"
      using room by simp
    with True show ?thesis
      by (simp add: in_window_def)
  qed
  ultimately show ?thesis
    using nb unfolding entry_inv_def by simp
qed

lemma entry_inv_served:
  "entry_inv info H T M \<Longrightarrow> entry_inv (info\<lparr> servedChunks := m \<rparr>) H T M"
  unfolding entry_inv_def by simp

lemma entry_inv_remove:
  assumes inv: "entry_inv info H T M" and old: "T - nLastRequestTime info > 600"
  shows "entry_inv PeerRequestInfo_init H T M"
proof -
  have "length (recent T' H) \<le> length (recent T' [])" if "T \<le> T'" for T'
  proof -
    have "\<And>x. x \<in> set (requestTimes info) \<Longrightarrow> x + 60 < T'"
      using inv old that unfolding entry_inv_def by fastforce
    then have "recent T' (requestTimes info) = []"
      by (rule recent_empty)
    moreover have "length (recent T' H) \<le> length (recent T' (requestTimes info))"
      using inv that unfolding entry_inv_def by blast
    ultimately show ?thesis by simp
  qed
  moreover have "\<forall>t. length (in_window t H) \<le> M"
    using inv unfolding entry_inv_def by blast
  ultimately show ?thesis
    unfolding entry_inv_def PeerRequestInfo_init_def by simp
qed

lemma entry_inv_init: "entry_inv PeerRequestInfo_init [] T M"
  by (simp add: entry_inv_def PeerRequestInfo_init_def recent_def in_window_def)

lemma peer_entry_upd: "peer_entry (m(addr \<mapsto> e)) addr = e"
  by (simp add: peer_entry_def)

lemma AllowRequest_other_peer:
  "a \<noteq> addr \<Longrightarrow> mapPeerRequests (snd (AllowRequest s nNow a nChunk)) addr = mapPeerRequests s addr"
  by (simp add: AllowRequest_def Let_def)

lemma AllowRequest_alt:
  "AllowRequest s nNow addr nChunk =
     (let e0 = peer_entry (mapPeerRequests s) addr;
          e1 = unbanned e0;
          e2 = trimmed nNow e1
      in
      if bIsBanned e0 \<and> nNow < nBanUntil e0
      then (Rejected PeerBanned, s\<lparr> mapPeerRequests := (mapPeerRequests s)(addr \<mapsto> e0) \<rparr>)
      else if nMaxConcurrentTransfers s \<le> nActiveTransfers s
      then (Rejected ServerAtCapacity, s\<lparr> mapPeerRequests := (mapPeerRequests s)(addr \<mapsto> e1) \<rparr>)
      else if 0 < nLastRequestTime e1
              \<and> nNow - nLastRequestTime e1 < uint (nMinSecondsBetweenRequests s)
      then (Rejected TooFast, s\<lparr> mapPeerRequests := (mapPeerRequests s)(addr \<mapsto> e1) \<rparr>)
      else if (case servedChunks e1 nChunk of
                 None \<Rightarrow> False
               | Some served \<Rightarrow> nNow - served < uint (nDuplicateChunkWindowSec s))
      then (Rejected AlreadyServed, s\<lparr> mapPeerRequests := (mapPeerRequests s)(addr \<mapsto> e1) \<rparr>)
      else if unat (nMaxChunksPerPeerPerMinute s) \<le> length (requestTimes e2)
      then (Rejected RateLimit,
            s\<lparr> mapPeerRequests := (mapPeerRequests s)(addr \<mapsto>
                 (if unat (nBanThreshold s) \<le> length (requestTimes e2)
                  then e2\<lparr> bIsBanned := True, nBanUntil := nNow + uint (nBanDurationSec s) \<rparr>
                  else e2)) \<rparr>)
      else (Admitted,
            s\<lparr> mapPeerRequests := (mapPeerRequests s)(addr \<mapsto>
                   e2\<lparr> requestTimes := requestTimes e2 @ [nNow],
                       nLastRequestTime := nNow,
                       nTotalRequests := nTotalRequests e2 + 1 \<rparr>),
                nActiveTransfers := nActiveTransfers s + 1 \<rparr>))"
  by (simp add: AllowRequest_def Let_def unbanned_def trimmed_def)

lemma AllowRequest_entry_inv:
  assumes inv: "entry_inv (peer_entry (mapPeerRequests s) addr) H T
                  (unat (nMaxChunksPerPeerPerMinute s))"
    and T: "T \<le> nNow" and dur: "60 < uint (nBanDurationSec s)"
  shows "entry_inv (peer_entry (mapPeerRequests (snd (AllowRequest s nNow addr nChunk))) addr)
           (H @ (if fst (AllowRequest s nNow addr nChunk) = Admitted then [nNow] else []))
           nNow (unat (nMaxChunksPerPeerPerMinute s))"
proof -
  let ?M = "unat (nMaxChunksPerPeerPerMinute s)"
  let ?r = "fst (AllowRequest s nNow addr nChunk)"
  let ?e' = "peer_entry (mapPeerRequests (snd (AllowRequest s nNow addr nChunk))) addr"
  let ?e0 = "peer_entry (mapPeerRequests s) addr"
  let ?e1 = "unbanned ?e0"
  let ?e2 = "trimmed nNow ?e1"
  have i0: "entry_inv ?e0 H nNow ?M"
    using inv T by (rule entry_inv_advance)
  show ?thesis
  proof (cases "bIsBanned ?e0 \<and> nNow < nBanUntil ?e0")
    case True
    then have "?r \<noteq> Admitted" and "?e' = ?e0"
      by (auto simp: AllowRequest_alt Let_def peer_entry_upd)
    with i0 show ?thesis by simp
  next
    case active: False
    have i1: "entry_inv ?e1 H nNow ?M"
    proof (cases "bIsBanned ?e0")
      case True
      with active have "nBanUntil ?e0 \<le> nNow" by simp
      with i0 True show ?thesis
        unfolding unbanned_def by (simp add: entry_inv_unban)
    next
      case False
      with i0 show ?thesis by (simp add: unbanned_def)
    qed
    have nb1: "\<not> bIsBanned ?e1"
      by (simp add: unbanned_def)
    have i2: "entry_inv ?e2 H nNow ?M"
      unfolding trimmed_def using i1 by (rule entry_inv_drop)
    have nb2: "\<not> bIsBanned ?e2"
      using nb1 by (simp add: trimmed_def)
    show ?thesis
    proof (cases "nMaxConcurrentTransfers s \<le> nActiveTransfers s
        \<or> (0 < nLastRequestTime ?e1
            \<and> nNow - nLastRequestTime ?e1 < uint (nMinSecondsBetweenRequests s))
        \<or> (case servedChunks ?e1 nChunk of
              None \<Rightarrow> False
            | Some served \<Rightarrow> nNow - served < uint (nDuplicateChunkWindowSec s))")
      case True
      with active have "?r \<noteq> Admitted \<and> ?e' = ?e1"
        by (auto simp: AllowRequest_alt Let_def peer_entry_upd)
      with i1 show ?thesis by simp
    next
      case early: False
      show ?thesis
      proof (cases "?M \<le> length (requestTimes ?e2)")
        case True
        with active early have res: "?r \<noteq> Admitted"
          and ent: "?e' = (if unat (nBanThreshold s) \<le> length (requestTimes ?e2)
                      then ?e2\<lparr> bIsBanned := True, nBanUntil := nNow + uint (nBanDurationSec s) \<rparr>
                      else ?e2)"
          by (auto simp: AllowRequest_alt Let_def peer_entry_upd)
        have "entry_inv (?e2\<lparr> bIsBanned := True, nBanUntil := nNow + uint (nBanDurationSec s) \<rparr>)
            H nNow ?M"
          using i2 dur by (rule entry_inv_ban)
        with i2 res ent show ?thesis by simp
      next
        case False
        with active early have res: "?r = Admitted"
          and ent: "?e' = ?e2\<lparr> requestTimes := requestTimes ?e2 @ [nNow],
                        nLastRequestTime := nNow, nTotalRequests := nTotalRequests ?e2 + 1 \<rparr>"
          by (auto simp: AllowRequest_alt Let_def peer_entry_upd)
        have "entry_inv (?e2\<lparr> requestTimes := requestTimes ?e2 @ [nNow],
              nLastRequestTime := nNow, nTotalRequests := nTotalRequests ?e2 + 1 \<rparr>)
            (H @ [nNow]) nNow ?M"
          using i2 nb2 False by (intro entry_inv_admit) simp_all
        with res ent show ?thesis by simp
      qed
    qed
  qed
qed

lemma AllowRequest_admitted_window:
  assumes "fst (AllowRequest s nNow addr nChunk) = Admitted"
  shows "length (requestTimes (trimmed nNow (unbanned (peer_entry (mapPeerRequests s) addr))))
           < unat (nMaxChunksPerPeerPerMinute s)
         \<and> requestTimes (peer_entry (mapPeerRequests (snd (AllowRequest s nNow addr nChunk))) addr)
             = requestTimes (trimmed nNow (unbanned (peer_entry (mapPeerRequests s) addr))) @ [nNow]"
  using assms
  by (auto simp: AllowRequest_alt Let_def peer_entry_upd split: if_splits)

lemma RecordServed_entry_inv:
  assumes "entry_inv (peer_entry (mapPeerRequests s) addr) H T M"
  shows "entry_inv (peer_entry (mapPeerRequests (RecordServed s nNow a nChunk nBytes)) addr) H T M"
proof (cases "a = addr")
  case True
  then show ?thesis
    using assms by (simp add: RecordServed_def Let_def peer_entry_upd entry_inv_served)
next
  case False
  then have "mapPeerRequests (RecordServed s nNow a nChunk nBytes) addr = mapPeerRequests s addr"
    by (simp add: RecordServed_def Let_def)
  with assms show ?thesis
    by (simp add: peer_entry_def)
qed

lemma Cleanup_entry_inv:
  assumes inv: "entry_inv (peer_entry (mapPeerRequests s) addr) H T M"
  shows "entry_inv (peer_entry (mapPeerRequests (Cleanup s T)) addr) H T M"
proof (cases "mapPeerRequests s addr")
  case None
  then have "mapPeerRequests (Cleanup s T) addr = None"
    by (simp add: Cleanup_def Let_def)
  with None inv show ?thesis
    by (simp add: peer_entry_def)
next
  case (Some info)
  show ?thesis
  proof (cases "T - nLastRequestTime info > 600 \<and> \<not> bIsBanned info")
    case True
    with Some have gone: "mapPeerRequests (Cleanup s T) addr = None"
      by (simp add: Cleanup_def Let_def)
    have "entry_inv info H T M"
      using inv Some by (simp add: peer_entry_def)
    then have "entry_inv PeerRequestInfo_init H T M"
      using True by (intro entry_inv_remove [of info]) simp_all
    with gone show ?thesis
      by (simp add: peer_entry_def)
  next
    case False
    with Some have "mapPeerRequests (Cleanup s T) addr = Some info"
      by (auto simp: Cleanup_def Let_def)
    with Some inv show ?thesis
      by (simp add: peer_entry_def)
  qed
qed

lemma admitted_times_Cons:
  "admitted_times addr s ((nNow, call) # cs) =
     (case call of
        CallAllowRequest a nChunk \<Rightarrow>
          (if a = addr \<and> fst (AllowRequest s nNow a nChunk) = Admitted then [nNow] else [])
      | _ \<Rightarrow> [])
     @ admitted_times addr (snd (rl_step s (nNow, call))) cs"
  by (cases call) (simp_all add: split_beta)

lemma rl_step_entry_inv:
  assumes inv: "entry_inv (peer_entry (mapPeerRequests s) addr) H T
                  (unat (nMaxChunksPerPeerPerMinute s))"
    and T: "T \<le> nNow" and dur: "60 < uint (nBanDurationSec s)"
  shows "entry_inv (peer_entry (mapPeerRequests (snd (rl_step s (nNow, call)))) addr)
           (H @ (case call of
                   CallAllowRequest a nChunk \<Rightarrow>
                     (if a = addr \<and> fst (AllowRequest s nNow a nChunk) = Admitted
                      then [nNow] else [])
                 | _ \<Rightarrow> []))
           nNow (unat (nMaxChunksPerPeerPerMinute s))"
proof -
  have adv: "entry_inv (peer_entry (mapPeerRequests s) addr) H nNow
      (unat (nMaxChunksPerPeerPerMinute s))"
    using inv T by (rule entry_inv_advance)
  show ?thesis
  proof (cases call)
    case (CallAllowRequest a nChunk)
    show ?thesis
    proof (cases "a = addr")
      case True
      with CallAllowRequest AllowRequest_entry_inv [OF inv T dur, of nChunk] show ?thesis
        by (simp add: split_beta)
    next
      case False
      then have "peer_entry (mapPeerRequests (snd (AllowRequest s nNow a nChunk))) addr
          = peer_entry (mapPeerRequests s) addr"
        by (simp add: peer_entry_def AllowRequest_other_peer)
      with False CallAllowRequest adv show ?thesis
        by (simp add: split_beta)
    qed
  next
    case (CallRecordServed a nChunk nBytes)
    with RecordServed_entry_inv [OF adv, of nNow a nChunk nBytes] show ?thesis
      by simp
  next
    case CallCompleteTransfer
    with adv show ?thesis
      by (simp add: CompleteTransfer_def)
  next
    case CallCleanup
    with Cleanup_entry_inv [OF adv] show ?thesis
      by simp
  qed
qed

lemma admitted_times_window:
  assumes "entry_inv (peer_entry (mapPeerRequests s) addr) H T
             (unat (nMaxChunksPerPeerPerMinute s))"
    and "60 < uint (nBanDurationSec s)"
    and "sorted (map fst calls)"
    and "\<forall>c \<in> set calls. T \<le> fst c"
  shows "length (in_window t (H @ admitted_times addr s calls))
           \<le> unat (nMaxChunksPerPeerPerMinute s)"
  using assms
proof (induction calls arbitrary: s H T)
  case Nil
  then show ?case
    by (simp add: entry_inv_def)
next
  case (Cons c cs)
  obtain nNow call where c: "c = (nNow, call)" by (cases c)
  let ?s' = "snd (rl_step s (nNow, call))"
  let ?adm = "case call of
      CallAllowRequest a nChunk \<Rightarrow>
        (if a = addr \<and> fst (AllowRequest s nNow a nChunk) = Admitted then [nNow] else [])
    | _ \<Rightarrow> []"
  have lim: "rl_limits ?s' = rl_limits s"
    by (rule rl_step_limits)
  then have M: "nMaxChunksPerPeerPerMinute ?s' = nMaxChunksPerPeerPerMinute s"
    and D: "nBanDurationSec ?s' = nBanDurationSec s"
    by (simp_all add: rl_limits_def)
  have T: "T \<le> nNow"
    using Cons.prems(4) c by simp
  have "entry_inv (peer_entry (mapPeerRequests ?s') addr) (H @ ?adm) nNow
      (unat (nMaxChunksPerPeerPerMinute s))"
    using Cons.prems(1) T Cons.prems(2) by (rule rl_step_entry_inv)
  then have inv': "entry_inv (peer_entry (mapPeerRequests ?s') addr) (H @ ?adm) nNow
      (unat (nMaxChunksPerPeerPerMinute ?s'))"
    by (simp only: M)
  have dur': "60 < uint (nBanDurationSec ?s')"
    using Cons.prems(2) by (simp only: D)
  have sorted': "sorted (map fst cs)" and later: "\<forall>c \<in> set cs. nNow \<le> fst c"
    using Cons.prems(3) c by simp_all
  have "length (in_window t ((H @ ?adm) @ admitted_times addr ?s' cs))
      \<le> unat (nMaxChunksPerPeerPerMinute ?s')"
    using inv' dur' sorted' later by (rule Cons.IH)
  then show ?case
    unfolding c admitted_times_Cons by (simp only: M append_assoc)
qed

text \<open>
  Claim C4: a limiter set up by the constructor and \<open>SetLimits\<close> serves any sequence of
  calls whose clock readings do not decrease. Then among the requests of one peer, those
  admitted at readings from \<open>t\<close> to \<open>t + 60\<close> are at most \<open>maxChunksPerMin\<close>. An admission
  happens only when the window, after the old readings were dropped, is shorter than the
  limit, and it appends its reading to that window.
\<close>

theorem admissions_per_window:
  assumes "sorted (map fst calls)"
  shows "length (filter (\<lambda>x. t \<le> x \<and> x \<le> t + 60)
            (admitted_times addr
               (SetLimits (CSnapshotRateLimiter_init t0) maxChunksPerMin maxConcurrent minSecBetween)
               calls))
           \<le> unat maxChunksPerMin
         \<and> (fst (AllowRequest s nNow addr nChunk) = Admitted \<longrightarrow>
              length (drop_old nNow
                  (if bIsBanned (peer_entry (mapPeerRequests s) addr) then []
                   else requestTimes (peer_entry (mapPeerRequests s) addr)))
                < unat (nMaxChunksPerPeerPerMinute s)
              \<and> requestTimes (peer_entry (mapPeerRequests (snd (AllowRequest s nNow addr nChunk))) addr)
                  = drop_old nNow
                      (if bIsBanned (peer_entry (mapPeerRequests s) addr) then []
                       else requestTimes (peer_entry (mapPeerRequests s) addr))
                    @ [nNow])"
proof -
  let ?s0 = "SetLimits (CSnapshotRateLimiter_init t0 :: 'a CSnapshotRateLimiter)
      maxChunksPerMin maxConcurrent minSecBetween"
  define T where "T = (if calls = [] then 0 else fst (hd calls))"
  have M: "nMaxChunksPerPeerPerMinute ?s0 = maxChunksPerMin"
    and D: "60 < uint (nBanDurationSec ?s0)"
    and E: "peer_entry (mapPeerRequests ?s0) addr = PeerRequestInfo_init"
    by (simp_all add: SetLimits_def CSnapshotRateLimiter_init_def peer_entry_def)
  have inv: "entry_inv (peer_entry (mapPeerRequests ?s0) addr) [] T
      (unat (nMaxChunksPerPeerPerMinute ?s0))"
    unfolding E by (rule entry_inv_init)
  have later: "\<forall>c \<in> set calls. T \<le> fst c"
  proof (cases calls)
    case Nil
    then show ?thesis by simp
  next
    case (Cons c cs)
    with assms show ?thesis
      by (auto simp: T_def)
  qed
  have "length (in_window t ([] @ admitted_times addr ?s0 calls))
      \<le> unat (nMaxChunksPerPeerPerMinute ?s0)"
    using inv D assms later by (rule admitted_times_window)
  then have window: "length (filter (\<lambda>x. t \<le> x \<and> x \<le> t + 60) (admitted_times addr ?s0 calls))
      \<le> unat maxChunksPerMin"
    by (simp add: in_window_def M)
  have tw: "requestTimes (trimmed nNow (unbanned (peer_entry (mapPeerRequests s) addr)))
      = drop_old nNow
          (if bIsBanned (peer_entry (mapPeerRequests s) addr) then []
           else requestTimes (peer_entry (mapPeerRequests s) addr))"
    by (simp add: trimmed_def unbanned_def)
  have step: "fst (AllowRequest s nNow addr nChunk) = Admitted \<longrightarrow>
      length (drop_old nNow
          (if bIsBanned (peer_entry (mapPeerRequests s) addr) then []
           else requestTimes (peer_entry (mapPeerRequests s) addr)))
        < unat (nMaxChunksPerPeerPerMinute s)
      \<and> requestTimes (peer_entry (mapPeerRequests (snd (AllowRequest s nNow addr nChunk))) addr)
          = drop_old nNow
              (if bIsBanned (peer_entry (mapPeerRequests s) addr) then []
               else requestTimes (peer_entry (mapPeerRequests s) addr))
            @ [nNow]"
    using AllowRequest_admitted_window [of s nNow addr nChunk] unfolding tw by blast
  from window step show ?thesis
    by blast
qed

text \<open>
  The theorem at the 150 requests of one peer: the readings ascend, the span from 1000 to
  1060 holds at most 30 admissions, and the thirtieth admission extends a window of 29.
\<close>

theorem admissions_per_window_witness:
  "sorted (map fst s3_calls)
   \<and> length (filter (\<lambda>x. 1000 \<le> x \<and> x \<le> 1000 + 60)
        (admitted_times 7 (SetLimits (CSnapshotRateLimiter_init 1000) 30 25 2) s3_calls)) \<le> 30
   \<and> fst (AllowRequest (s3_state 29) 1058 7 29) = Admitted
   \<and> length (requestTimes (peer_entry (mapPeerRequests (s3_state 29)) 7)) = 29
   \<and> length (requestTimes
        (peer_entry (mapPeerRequests (snd (AllowRequest (s3_state 29) 1058 7 29))) 7)) = 30"
proof -
  have srt: "sorted (map fst s3_calls)"
    unfolding s3_calls_def s3_spaced_def s3_burst_def
    by (simp add: upt_rec sorted_append)
  have adm: "AllowRequest (s3_state 29) 1058 7 29 = (Admitted, (s3_state 30)\<lparr> nActiveTransfers := 1 \<rparr>)"
    using s3_spaced_step [of 29 29] by simp
  have l29: "length (requestTimes (peer_entry (mapPeerRequests (s3_state 29)) 7)) = 29"
    unfolding s3_peer_entry by (simp add: s3_entry_def del: upt_rec_numeral)
  have l30: "length (requestTimes
        (peer_entry (mapPeerRequests (snd (AllowRequest (s3_state 29) 1058 7 29))) 7)) = 30"
    unfolding adm by (simp add: s3_state_def peer_entry_upd s3_entry_def del: upt_rec_numeral)
  from srt adm l29 l30
    admissions_per_window [OF srt, of 1000 7 1000 30 25 2 "s3_state 29" 1058 29]
  show ?thesis
    by simp
qed
section \<open>Download coordinator: reaping timed-out requests\<close>

lemma reap_loop_sets:
  "set (fst (reap_loop states nNow m))
     = {(node, nChunk). (nChunk, node) \<in> set m
          \<and> (\<exists>st. states node = Some st
                \<and> nNow - dl_nLastRequestTime st > uint REQUEST_TIMEOUT_SEC)}
   \<and> snd (reap_loop states nNow m)
     = filter (\<lambda>(nChunk, node). \<not> (\<exists>st. states node = Some st
                \<and> nNow - dl_nLastRequestTime st > uint REQUEST_TIMEOUT_SEC)) m"
proof (induction m)
  case Nil
  show ?case by simp
next
  case (Cons p m)
  obtain nChunk node where p: "p = (nChunk, node)" by (cases p)
  show ?case
    using Cons unfolding p
    by (cases "states node") (auto simp: split_beta)
qed

text \<open>
  What \<open>GetTimedOutRequests\<close> does: it returns and erases exactly the in-flight pairs
  whose peer's latest request, for whichever chunk, is older than the timeout.
\<close>

lemma GetTimedOutRequests_by_peer:
  "set (fst (GetTimedOutRequests c nNow))
     = {(node, nChunk). (nChunk, node) \<in> set (mapChunkToNode c)
          \<and> (\<exists>st. mapPeerStates c node = Some st
                \<and> nNow - dl_nLastRequestTime st > uint REQUEST_TIMEOUT_SEC)}
   \<and> mapChunkToNode (snd (GetTimedOutRequests c nNow))
     = filter (\<lambda>(nChunk, node). \<not> (\<exists>st. mapPeerStates c node = Some st
                \<and> nNow - dl_nLastRequestTime st > uint REQUEST_TIMEOUT_SEC))
         (mapChunkToNode c)"
  using reap_loop_sets [of "mapPeerStates c" nNow "mapChunkToNode c"]
  by (simp add: GetTimedOutRequests_def split_beta)

text \<open>
  Claim C6 at a failing input. Peer 7 was asked for chunk 1 at second 1000 and for chunk 2
  at second 1050. At second 1061 the request for chunk 1 is 61 seconds old, so the
  specification's reaping returns the pair (7, 1); \<open>GetTimedOutRequests\<close> returns nothing
  and leaves both chunks in flight, because it measures from the peer's latest request.
\<close>

theorem GetTimedOutRequests_keeps_stale_chunk:
  "mapChunkToNode (record_requests CSnapshotDownloadCoordinator_init two_requests)
     = [(1, 7), (2, 7)]
   \<and> request_time two_requests 1 = Some 1000
   \<and> spec_timed_out two_requests 1061 = [(7, 1)]
   \<and> GetTimedOutRequests (record_requests CSnapshotDownloadCoordinator_init two_requests) 1061
       = ([], record_requests CSnapshotDownloadCoordinator_init two_requests)"
  by (simp add: two_requests_def spec_timed_out_def GetTimedOutRequests_def RecordRequest_def
      CSnapshotDownloadCoordinator_init_def peer_state_def PeerDownloadState_init_def
      REQUEST_TIMEOUT_SEC_def Let_def)

section \<open>UTXO-set hash verification: the result\<close>

text \<open>
  Claim C7, as the code has it: without a matching checkpoint, or with the all-zero UTXO
  hash in it, the verification succeeds and calls nothing; otherwise it succeeds exactly
  when the statistics were computed and their serialized hash equals the checkpoint's UTXO
  hash. The block hash in the statistics has no part in the result.
\<close>

theorem VerifySnapshotUTXOHash_result:
  "((find (\<lambda>c. nHeight c = h \<and> hashBlock c = blockHash) checkpoints = None
      \<or> (\<exists>cp. find (\<lambda>c. nHeight c = h \<and> hashBlock c = blockHash) checkpoints = Some cp
               \<and> hashUTXOSet cp = 0))
     \<longrightarrow> VerifySnapshotUTXOHash checkpoints pcoinsTip blockHash h = (True, []))
   \<and> (find (\<lambda>c. nHeight c = h \<and> hashBlock c = blockHash) checkpoints = Some cp
        \<and> hashUTXOSet cp \<noteq> 0
     \<longrightarrow> (fst (VerifySnapshotUTXOHash checkpoints pcoinsTip blockHash h)
            \<longleftrightarrow> (\<exists>stats. pcoinsTip = Some (Some stats)
                   \<and> hashSerialized stats = hashUTXOSet cp)))"
proof -
  show ?thesis
    by (cases "checkpoints = []")
      (auto simp: VerifySnapshotUTXOHash_def CalculateUTXOSetHash_def
        split: option.splits)
qed

text \<open>
  The theorem at the example checkpoint: the sentinel, no matching checkpoint, matching
  statistics, a differing serialized hash, and no coins database.
\<close>

theorem VerifySnapshotUTXOHash_result_witness:
  "VerifySnapshotUTXOHash [example_checkpoint\<lparr> hashUTXOSet := 0 \<rparr>] None 0xAA 100 = (True, [])
   \<and> VerifySnapshotUTXOHash [example_checkpoint] None 0xAB 100 = (True, [])
   \<and> fst (VerifySnapshotUTXOHash [example_checkpoint]
        (Some (Some (other_tip_stats\<lparr> stats_hashBlock := 0xAA \<rparr>))) 0xAA 100)
   \<and> \<not> fst (VerifySnapshotUTXOHash [example_checkpoint]
        (Some (Some (other_tip_stats\<lparr> hashSerialized := 0xBC \<rparr>))) 0xAA 100)
   \<and> \<not> fst (VerifySnapshotUTXOHash [example_checkpoint] None 0xAA 100)"
  using
    VerifySnapshotUTXOHash_result [of 100 "0xAA" "[example_checkpoint\<lparr> hashUTXOSet := 0 \<rparr>]"
      None "example_checkpoint\<lparr> hashUTXOSet := 0 \<rparr>"]
    VerifySnapshotUTXOHash_result [of 100 "0xAB" "[example_checkpoint]" None example_checkpoint]
    VerifySnapshotUTXOHash_result [of 100 "0xAA" "[example_checkpoint]"
      "Some (Some (other_tip_stats\<lparr> stats_hashBlock := 0xAA \<rparr>))" example_checkpoint]
    VerifySnapshotUTXOHash_result [of 100 "0xAA" "[example_checkpoint]"
      "Some (Some (other_tip_stats\<lparr> hashSerialized := 0xBC \<rparr>))" example_checkpoint]
    VerifySnapshotUTXOHash_result [of 100 "0xAA" "[example_checkpoint]" None example_checkpoint]
  by (simp add: example_checkpoint_def other_tip_stats_def)

text \<open>
  Claim C7 as stated fails: the statistics report another tip than the checkpoint's block,
  their serialized hash equals the checkpoint's UTXO hash, and the verification succeeds.
\<close>

theorem VerifySnapshotUTXOHash_tip_counterexample:
  "find (\<lambda>c. nHeight c = 100 \<and> hashBlock c = 0xAA) [example_checkpoint] = Some example_checkpoint
   \<and> hashUTXOSet example_checkpoint \<noteq> 0
   \<and> stats_hashBlock other_tip_stats \<noteq> hashBlock example_checkpoint
   \<and> VerifySnapshotUTXOHash [example_checkpoint] (Some (Some other_tip_stats)) 0xAA 100
       = (True, [Call_FlushStateToDisk, Call_GetStats])"
  by (simp add: VerifySnapshotUTXOHash_def CalculateUTXOSetHash_def example_checkpoint_def
      other_tip_stats_def)

end
